theory Spec2Isabelle
  imports Main "HOL-Library.Sublist"
begin

section \<open>The evaluator of wot++ (src/backend/eval/eval.cpp)\<close>

text \<open>
  The development embeds \<^verbatim>\<open>wpp::eval_ast\<close> and the intrinsics of
  \<^verbatim>\<open>src/backend/eval/eval.cpp\<close>. Every visitor of the C++ source is one definition
  with the name of the source; the recursive call \<^verbatim>\<open>eval_ast(n, env, args)\<close> is the
  parameter \<open>ev\<close> of a visitor, and \<open>eval_ast\<close> ties the knot by recursion on a fuel
  counter, since a wot++ program may recurse for ever.
\<close>

subsection \<open>Data model\<close>

type_synonym node_t = nat
type_synonym path = string

text \<open>
  Modelled from the spec: \<^verbatim>\<open>wpp::Position\<close> (frontend/ast.hpp is not among the
  sources). The evaluator only copies positions into nodes, warnings and exceptions.
\<close>

datatype position = Position nat nat

text \<open>
  The token kinds that the intrinsic visitor dispatches on. \<open>TOKEN_OTHER\<close> stands for
  every other member of the token enumeration: its entry in the arity table is zero and no
  branch of the dispatch names it.
\<close>

datatype token =
    TOKEN_ASSERT | TOKEN_ERROR | TOKEN_FILE | TOKEN_SOURCE | TOKEN_ESCAPE | TOKEN_EVAL
  | TOKEN_RUN | TOKEN_PIPE | TOKEN_SLICE | TOKEN_FIND | TOKEN_LENGTH | TOKEN_LOG
  | TOKEN_OTHER

text \<open>
  The node variants, with the fields in the order of the structured bindings of the
  visitors (\<^verbatim>\<open>[caller_name, caller_args, caller_pos]\<close>,
  \<^verbatim>\<open>[name, params, body, pos]\<close>, ...). Children are handles into the arena.
\<close>

datatype node =
    String string position
  | Concat node_t node_t position
  | Block "node_t list" node_t position
  | FnInvoke string "node_t list" position
  | Fn string "string list" node_t position
  | Var string node_t position
  | Drop node_t position
  | Codeify node_t position
  | Map node_t "(node_t \<times> node_t) list" node_t position
  | Pre "node_t list" "node_t list" position
  | Intrinsic token string "node_t list" position
  | Document "node_t list"

text \<open>
  Modelled from the spec: the reserved sentinel handle \<^verbatim>\<open>wpp::NODE_EMPTY\<close> ("absent");
  its declaration is not among the sources. The evaluator only compares a handle with it.
\<close>

definition NODE_EMPTY :: node_t where
  "NODE_EMPTY = 4294967295"

datatype warning_t =
    WARN_FUNC_REDEFINED | WARN_PARAM_SHADOW_FUNC | WARN_PARAM_SHADOW_PARAM
  | WARN_VARFUNC_REDEFINED

text \<open>
  What leaves a visitor other than a string. \<open>Exception\<close> is \<^verbatim>\<open>wpp::Exception\<close>
  (position and message). \<open>Crash\<close> is everything no handler of the evaluator names:
  undefined behaviour of the C++ run (an index outside a vector, \<^verbatim>\<open>back()\<close> of an empty
  string) and standard-library exceptions (\<^verbatim>\<open>std::out_of_range\<close>,
  \<^verbatim>\<open>std::bad_variant_access\<close>).
\<close>

datatype error = Exception position string | Crash string

datatype 'a outcome = Ok 'a | Throw error

text \<open>What the evaluator writes to the diagnostic stream.\<close>

datatype event = Warning position string | Logged string

text \<open>
  The first four fields are \<^verbatim>\<open>wpp::Environment\<close>
  (\<^verbatim>\<open>auto& [base, functions, tree, warnings] = env\<close>); the function table maps a
  mangled name to its stack of definitions, top last. The last two fields are the state
  of the process that the evaluator reads and writes: the current working directory
  (\<^verbatim>\<open>std::filesystem::current_path\<close>) and the diagnostic stream.
\<close>

record state =
  base :: path
  function_table :: "string \<rightharpoonup> node_t list"
  tree :: "node list"
  warnings :: "warning_t set"
  current_path :: path
  cerr :: "event list"

text \<open>
  \<^verbatim>\<open>wpp::Arguments\<close> is a map from parameter names to evaluated strings, and
  \<^verbatim>\<open>eval_ast\<close> receives a pointer to it, null at top level. A callee could write
  through the pointer, so a computation takes the map the pointer refers to and returns
  it as the callee leaves it. \<open>None\<close> as the result of a computation means that the fuel
  ran out.
\<close>

type_synonym scope = "string \<rightharpoonup> string"
type_synonym frame = "state \<times> scope option"
type_synonym 'a eval = "frame \<Rightarrow> ('a outcome \<times> frame) option"

text \<open>
  What the evaluator calls and the sources do not define: the file system
  (\<^verbatim>\<open>wpp::read_file\<close>, relative to the working directory given first; \<open>None\<close> is
  \<^verbatim>\<open>std::filesystem::filesystem_error\<close>), the lexer and parser
  (\<^verbatim>\<open>wpp::document\<close>: lexer path, source text and arena to the root handle or an
  exception, and the arena with the nodes it added), the subprocess primitives
  (\<^verbatim>\<open>wpp::exec\<close>: output and exit status), the path operations of
  \<^verbatim>\<open>std::filesystem\<close>, and the build flag \<^verbatim>\<open>WPP_DISABLE_RUN\<close>.
\<close>

record host =
  read_file :: "path \<Rightarrow> string \<Rightarrow> string option"
  document :: "path \<Rightarrow> string \<Rightarrow> node list \<Rightarrow> (error + node_t) \<times> node list"
  exec :: "string \<Rightarrow> string \<times> int"
  exec_pipe :: "string \<Rightarrow> string \<Rightarrow> string \<times> int"
  path_append :: "path \<Rightarrow> string \<Rightarrow> path"
  parent_path :: "path \<Rightarrow> path"
  relative :: "path \<Rightarrow> path \<Rightarrow> path"
  WPP_DISABLE_RUN :: bool

subsection \<open>Sequencing\<close>

definition pure :: "'a \<Rightarrow> 'a eval" where
  "pure x = (\<lambda>s. Some (Ok x, s))"

definition raise :: "error \<Rightarrow> 'a eval" where
  "raise e = (\<lambda>s. Some (Throw e, s))"

text \<open>An exception or the end of the fuel in the first computation skips the second.\<close>

definition and_then :: "'a eval \<Rightarrow> ('a \<Rightarrow> 'b eval) \<Rightarrow> 'b eval" where
  "and_then m f = (\<lambda>s. case m s of
       None \<Rightarrow> None
     | Some (Throw e, s') \<Rightarrow> Some (Throw e, s')
     | Some (Ok x, s') \<Rightarrow> f x s')"

definition gets :: "(state \<Rightarrow> 'a) \<Rightarrow> 'a eval" where
  "gets f = (\<lambda>(st, a). Some (Ok (f st), (st, a)))"

definition modify :: "(state \<Rightarrow> state) \<Rightarrow> unit eval" where
  "modify f = (\<lambda>(st, a). Some (Ok (), (f st, a)))"

definition get_args :: "scope option eval" where
  "get_args = (\<lambda>(st, a). Some (Ok a, (st, a)))"

text \<open>
  \<^verbatim>\<open>eval_ast(body, env, &env_args)\<close>: the callee runs on a map of its own; what it
  leaves in that map is dropped with the caller's local variable, and the map behind the
  caller's pointer is the one the caller had.
\<close>

definition call_with :: "scope \<Rightarrow> 'a eval \<Rightarrow> 'a eval" where
  "call_with env_args m = (\<lambda>(st, a). case m (st, Some env_args) of
       None \<Rightarrow> None
     | Some (r, (st', env_args')) \<Rightarrow> Some (r, (st', a)))"

text \<open>\<^verbatim>\<open>env.tree[n]\<close>: a read outside the arena is undefined behaviour.\<close>

definition get_node :: "node_t \<Rightarrow> node eval" where
  "get_node n = and_then (gets tree) (\<lambda>t.
     if n < length t then pure (t ! n) else raise (Crash ''node index outside the arena''))"

text \<open>\<^verbatim>\<open>tree.replace<T>(n, ...)\<close> and writes through a pointer into the arena.\<close>

definition replace :: "node_t \<Rightarrow> node \<Rightarrow> unit eval" where
  "replace n v = and_then (gets tree) (\<lambda>t.
     if n < length t then modify (\<lambda>st. st\<lparr>tree := (tree st)[n := v]\<rparr>)
     else raise (Crash ''node index outside the arena''))"

definition warn :: "position \<Rightarrow> string \<Rightarrow> unit eval" where
  "warn pos msg = modify (\<lambda>st. st\<lparr>cerr := cerr st @ [Warning pos msg]\<rparr>)"

definition warn_if :: "warning_t \<Rightarrow> position \<Rightarrow> string \<Rightarrow> unit eval" where
  "warn_if w pos msg = and_then (gets warnings) (\<lambda>ws.
     if w \<in> ws then warn pos msg else pure ())"

subsection \<open>Strings and numbers of the C++ library\<close>

text \<open>The character of a decimal digit: \<^verbatim>\<open>'0' + d\<close>.\<close>

definition digit_char :: "nat \<Rightarrow> char" where
  "digit_char d = char_of (48 + d)"

text \<open>\<^verbatim>\<open>std::to_string\<close> of an unsigned value: its decimal digits.\<close>

fun to_string :: "nat \<Rightarrow> string" where
  "to_string n = (if n < 10 then [digit_char n]
                  else to_string (n div 10) @ [digit_char (n mod 10)])"

declare to_string.simps [simp del]

text \<open>
  Modelled from the spec: \<^verbatim>\<open>wpp::cat\<close> (misc/util/util.hpp is not among the sources)
  concatenates the printed forms of its arguments; the function table's key is the
  identifier with the arity as a suffix.
\<close>

definition cat :: "string \<Rightarrow> nat \<Rightarrow> string" where
  "cat name n = name @ to_string n"

definition digit_val :: "char \<Rightarrow> nat option" where
  "digit_val c =
    (let code = (of_char c :: nat) in if 48 \<le> code \<and> code \<le> 57 then Some (code - 48) else None)"

definition isdigit :: "char \<Rightarrow> bool" where
  "isdigit c = (digit_val c \<noteq> None)"

definition isspace :: "char \<Rightarrow> bool" where
  "isspace c = (c = CHR '' '' \<or> c = CHR 0x09 \<or> c = CHR 0x0A \<or> c = CHR 0x0B
              \<or> c = CHR 0x0C \<or> c = CHR 0x0D)"

definition digits_value :: "string \<Rightarrow> int" where
  "digits_value ds =
     foldl (\<lambda>acc c. acc * 10 + (case digit_val c of Some d \<Rightarrow> int d | None \<Rightarrow> 0)) 0 ds"

definition INT_MIN :: int where
  "INT_MIN = - 2147483648"

definition INT_MAX :: int where
  "INT_MAX = 2147483647"

text \<open>
  \<^verbatim>\<open>std::stoi\<close>: leading white space, an optional sign, then the longest run of
  decimal digits; what follows is ignored. \<open>None\<close> is \<^verbatim>\<open>std::invalid_argument\<close> (no
  digit) or \<^verbatim>\<open>std::out_of_range\<close> (the value is no \<^verbatim>\<open>int\<close>).
\<close>

definition stoi :: "string \<Rightarrow> int option" where
  "stoi s =
    (let s1 = dropWhile isspace s;
         neg = (s1 \<noteq> [] \<and> hd s1 = CHR ''-'');
         s2 = (if s1 \<noteq> [] \<and> (hd s1 = CHR ''-'' \<or> hd s1 = CHR ''+'') then tl s1 else s1);
         ds = takeWhile isdigit s2;
         v = (if neg then - digits_value ds else digits_value ds)
     in if ds = [] then None
        else if v < INT_MIN \<or> INT_MAX < v then None
        else Some v)"

text \<open>
  Arithmetic on \<^verbatim>\<open>int\<close>, and the conversion of a \<^verbatim>\<open>size_t\<close> to \<^verbatim>\<open>int\<close>: the
  value is reduced into the 32-bit two's complement range.
\<close>

definition wrap32 :: "int \<Rightarrow> int" where
  "wrap32 x = (x + 2147483648) mod 4294967296 - 2147483648"

text \<open>
  \<^verbatim>\<open>string.substr(begin, count)\<close> with \<^verbatim>\<open>int\<close> arguments: they convert to
  \<^verbatim>\<open>size_t\<close>, so a negative one is a huge one; a start beyond the size throws
  \<^verbatim>\<open>std::out_of_range\<close>, a count beyond the end is cut.
\<close>

definition substr :: "string \<Rightarrow> int \<Rightarrow> int \<Rightarrow> error + string" where
  "substr s begin count =
    (if begin < 0 \<or> int (length s) < begin then Inl (Crash ''std::out_of_range'')
     else if count < 0 then Inr (drop (nat begin) s)
     else Inr (take (nat count) (drop (nat begin) s)))"

text \<open>
  \<^verbatim>\<open>string.find(pattern)\<close>: the least index at which the pattern starts, \<open>None\<close> for
  \<^verbatim>\<open>std::string::npos\<close>.
\<close>

fun find_from :: "nat \<Rightarrow> string \<Rightarrow> string \<Rightarrow> nat option" where
  "find_from i s pattern =
    (if prefix pattern s then Some i
     else case s of [] \<Rightarrow> None | c # rest \<Rightarrow> find_from (Suc i) rest pattern)"

declare find_from.simps [simp del]

definition str_find :: "string \<Rightarrow> string \<Rightarrow> nat option" where
  "str_find s pattern = find_from 0 s pattern"

subsection \<open>Intrinsics\<close>

definition lift :: "error + 'a \<Rightarrow> 'a eval" where
  "lift r = (case r of Inl e \<Rightarrow> raise e | Inr x \<Rightarrow> pure x)"

definition intrinsic_assert ::
  "(node_t \<Rightarrow> string eval) \<Rightarrow> node_t \<Rightarrow> node_t \<Rightarrow> node_t \<Rightarrow> position \<Rightarrow> string eval" where
  "intrinsic_assert ev expr a b pos =
     and_then (ev a) (\<lambda>str_a.
     and_then (ev b) (\<lambda>str_b.
       if str_a \<noteq> str_b then raise (Exception pos ''assertion failed!'') else pure []))"

definition intrinsic_error :: "(node_t \<Rightarrow> string eval) \<Rightarrow> node_t \<Rightarrow> position \<Rightarrow> string eval" where
  "intrinsic_error ev expr pos = and_then (ev expr) (\<lambda>msg. raise (Exception pos msg))"

definition intrinsic_file ::
  "host \<Rightarrow> (node_t \<Rightarrow> string eval) \<Rightarrow> node_t \<Rightarrow> position \<Rightarrow> string eval" where
  "intrinsic_file h ev expr pos =
     and_then (ev expr) (\<lambda>fname.
     and_then (gets current_path) (\<lambda>cwd.
       case read_file h cwd (relative h fname cwd) of
         Some text \<Rightarrow> pure text
       | None \<Rightarrow> raise (Exception pos (''failed reading file '' @ [CHR 0x27] @ fname @ [CHR 0x27]))))"

text \<open>
  \<^verbatim>\<open>wpp::Lexer lex{path, text}; document(lex, tree)\<close>: the parser adds its nodes to the
  arena and returns the root, or throws.
\<close>

definition parse :: "host \<Rightarrow> path \<Rightarrow> string \<Rightarrow> node_t eval" where
  "parse h p text = (\<lambda>(st, a). case document h p text (tree st) of
       (Inl e, t') \<Rightarrow> Some (Throw e, (st\<lparr>tree := t'\<rparr>, a))
     | (Inr root, t') \<Rightarrow> Some (Ok root, (st\<lparr>tree := t'\<rparr>, a)))"

text \<open>
  The working directory is saved, set to the directory of the included file, and set back
  by the statement that follows the evaluation of the sub-document.
\<close>

definition intrinsic_source ::
  "host \<Rightarrow> (node_t \<Rightarrow> string eval) \<Rightarrow> node_t \<Rightarrow> position \<Rightarrow> string eval" where
  "intrinsic_source h ev expr pos =
     and_then (ev expr) (\<lambda>fname.
     and_then (gets current_path) (\<lambda>old_path.
       let new_path = path_append h old_path fname in
       case read_file h old_path fname of
         None \<Rightarrow> raise (Exception pos (''file '' @ [CHR 0x27] @ fname @ [CHR 0x27] @ '' not found.''))
       | Some file \<Rightarrow>
           and_then (gets base) (\<lambda>env_base.
           and_then (parse h (relative h new_path env_base) file) (\<lambda>root.
           and_then (modify (\<lambda>st. st\<lparr>current_path := parent_path h new_path\<rparr>)) (\<lambda>_.
           and_then (ev root) (\<lambda>str.
           and_then (modify (\<lambda>st. st\<lparr>current_path := old_path\<rparr>)) (\<lambda>_.
             pure str)))))))"

definition intrinsic_log :: "(node_t \<Rightarrow> string eval) \<Rightarrow> node_t \<Rightarrow> position \<Rightarrow> string eval" where
  "intrinsic_log ev expr pos =
     and_then (ev expr) (\<lambda>s.
     and_then (modify (\<lambda>st. st\<lparr>cerr := cerr st @ [Logged s]\<rparr>)) (\<lambda>_.
       pure []))"

definition escape_char :: "char \<Rightarrow> string" where
  "escape_char c =
    (if c = CHR 0x22 then [CHR 0x5C, CHR 0x22]
     else if c = CHR 0x27 then [CHR 0x5C, CHR 0x27]
     else if c = CHR 0x0A then [CHR 0x5C, CHR ''n'']
     else if c = CHR 0x09 then [CHR 0x5C, CHR ''t'']
     else if c = CHR 0x0D then [CHR 0x5C, CHR ''r'']
     else [c])"

definition intrinsic_escape :: "(node_t \<Rightarrow> string eval) \<Rightarrow> node_t \<Rightarrow> position \<Rightarrow> string eval" where
  "intrinsic_escape ev expr pos = and_then (ev expr) (\<lambda>input. pure (concat (map escape_char input)))"

text \<open>The body of \<^verbatim>\<open>intrinsic_slice\<close> once its three arguments are evaluated.\<close>

definition slice :: "position \<Rightarrow> string \<Rightarrow> string \<Rightarrow> string \<Rightarrow> error + string" where
  "slice pos string start_raw end_raw =
    (case stoi start_raw of
       None \<Rightarrow> Inl (Exception pos ''slice range must be numerical.'')
     | Some start \<Rightarrow>
      (case stoi end_raw of
         None \<Rightarrow> Inl (Exception pos ''slice range must be numerical.'')
       | Some end \<Rightarrow>
          let len = wrap32 (int (length string));
              begin = (if start < 0 then wrap32 (len + start) else start);
              count = (if end < 0 then wrap32 (wrap32 (wrap32 (len + end) - begin) + 1)
                       else wrap32 (wrap32 (end - begin) + 1))
          in if count \<le> 0 then Inl (Exception pos ''end of slice cannot be before the start.'')
             else if len < wrap32 (begin + count)
               then Inl (Exception pos ''slice extends outside of string bounds.'')
             else if start < 0 \<and> end \<ge> 0
               then Inl (Exception pos ''start cannot be negative where end is positive.'')
             else substr string begin count))"

definition intrinsic_slice ::
  "(node_t \<Rightarrow> string eval) \<Rightarrow> node_t \<Rightarrow> node_t \<Rightarrow> node_t \<Rightarrow> position \<Rightarrow> string eval" where
  "intrinsic_slice ev string_expr start_expr end_expr pos =
     and_then (ev string_expr) (\<lambda>string.
     and_then (ev start_expr) (\<lambda>start_raw.
     and_then (ev end_expr) (\<lambda>end_raw.
       lift (slice pos string start_raw end_raw))))"

text \<open>The body of \<^verbatim>\<open>intrinsic_find\<close> once its two arguments are evaluated.\<close>

definition find_index :: "string \<Rightarrow> string \<Rightarrow> string" where
  "find_index string pattern =
    (case str_find string pattern of Some position \<Rightarrow> to_string position | None \<Rightarrow> [])"

definition intrinsic_find :: "(node_t \<Rightarrow> string eval) \<Rightarrow> node_t \<Rightarrow> node_t \<Rightarrow> string eval" where
  "intrinsic_find ev string_expr pattern_expr =
     and_then (ev string_expr) (\<lambda>string.
     and_then (ev pattern_expr) (\<lambda>pattern.
       pure (find_index string pattern)))"

definition intrinsic_length :: "(node_t \<Rightarrow> string eval) \<Rightarrow> node_t \<Rightarrow> string eval" where
  "intrinsic_length ev string_expr = and_then (ev string_expr) (\<lambda>string. pure (to_string (length string)))"

text \<open>
  \<^verbatim>\<open>try { root = document(lex, tree); return eval_ast(root, env, args); }
  catch (const wpp::Exception& e) { throw wpp::Exception{pos, "inside eval: ", e.what()}; }\<close>
\<close>

definition inside_eval :: "position \<Rightarrow> 'a eval \<Rightarrow> 'a eval" where
  "inside_eval pos m = (\<lambda>s. case m s of
       None \<Rightarrow> None
     | Some (Throw (Exception p msg), s') \<Rightarrow> Some (Throw (Exception pos (''inside eval: '' @ msg)), s')
     | Some (Throw (Crash c), s') \<Rightarrow> Some (Throw (Crash c), s')
     | Some (Ok x, s') \<Rightarrow> Some (Ok x, s'))"

definition intrinsic_eval ::
  "host \<Rightarrow> (node_t \<Rightarrow> string eval) \<Rightarrow> node_t \<Rightarrow> position \<Rightarrow> string eval" where
  "intrinsic_eval h ev expr pos =
     and_then (ev expr) (\<lambda>code.
       inside_eval pos (and_then (parse h ''<eval>'' code) (\<lambda>root. ev root)))"

text \<open>
  \<^verbatim>\<open>if (str.back() == '\n') str.erase(str.end() - 1, str.end());\<close> The call of
  \<^verbatim>\<open>back()\<close> stands before any test of the size; on an empty string it is undefined
  behaviour.
\<close>

definition trim_newline :: "string \<Rightarrow> error + string" where
  "trim_newline str =
    (if str = [] then Inl (Crash ''back() of an empty string'')
     else if last str = CHR 0x0A then Inr (butlast str)
     else Inr str)"

definition intrinsic_run ::
  "host \<Rightarrow> (node_t \<Rightarrow> string eval) \<Rightarrow> node_t \<Rightarrow> position \<Rightarrow> string eval" where
  "intrinsic_run h ev expr pos =
    (if WPP_DISABLE_RUN h then raise (Exception pos ''run not available.'')
     else
       and_then (ev expr) (\<lambda>cmd.
         case exec h cmd of (out, rc) \<Rightarrow>
           and_then (lift (trim_newline out)) (\<lambda>str.
             if rc \<noteq> 0 then raise (Exception pos ''subprocess exited with non-zero status.'')
             else pure str)))"

definition intrinsic_pipe ::
  "host \<Rightarrow> (node_t \<Rightarrow> string eval) \<Rightarrow> node_t \<Rightarrow> node_t \<Rightarrow> position \<Rightarrow> string eval" where
  "intrinsic_pipe h ev cmd data pos =
    (if WPP_DISABLE_RUN h then raise (Exception pos ''pipe not available.'')
     else
       and_then (ev cmd) (\<lambda>cmd_str.
       and_then (ev data) (\<lambda>data_str.
         case exec_pipe h cmd_str data_str of (out, rc) \<Rightarrow>
           and_then (lift (trim_newline out)) (\<lambda>str.
             if rc \<noteq> 0 then raise (Exception pos ''subprocess exited with non-zero status.'')
             else pure str))))"

subsection \<open>The visitors of \<^verbatim>\<open>eval_ast\<close>\<close>

definition intrinsic_arg_n :: "token \<Rightarrow> nat" where
  "intrinsic_arg_n type =
    (case type of
       TOKEN_SLICE \<Rightarrow> 3 | TOKEN_FIND \<Rightarrow> 2 | TOKEN_ASSERT \<Rightarrow> 2 | TOKEN_PIPE \<Rightarrow> 2
     | TOKEN_ERROR \<Rightarrow> 1 | TOKEN_FILE \<Rightarrow> 1 | TOKEN_ESCAPE \<Rightarrow> 1 | TOKEN_EVAL \<Rightarrow> 1
     | TOKEN_RUN \<Rightarrow> 1 | TOKEN_SOURCE \<Rightarrow> 1 | TOKEN_LENGTH \<Rightarrow> 1 | TOKEN_LOG \<Rightarrow> 1
     | TOKEN_OTHER \<Rightarrow> 0)"

definition visit_Intrinsic ::
  "host \<Rightarrow> (node_t \<Rightarrow> string eval) \<Rightarrow> node_t \<Rightarrow> token \<Rightarrow> string \<Rightarrow> node_t list \<Rightarrow> position
     \<Rightarrow> string eval" where
  "visit_Intrinsic h ev node_id type name exprs pos =
    (let n_args = intrinsic_arg_n type in
     if n_args \<noteq> length exprs
       then raise (Exception pos (name @ '' takes exactly '' @ to_string n_args @ '' arguments.''))
     else if type = TOKEN_ASSERT then intrinsic_assert ev node_id (exprs ! 0) (exprs ! 1) pos
     else if type = TOKEN_ERROR then intrinsic_error ev (exprs ! 0) pos
     else if type = TOKEN_FILE then intrinsic_file h ev (exprs ! 0) pos
     else if type = TOKEN_SOURCE then intrinsic_source h ev (exprs ! 0) pos
     else if type = TOKEN_ESCAPE then intrinsic_escape ev (exprs ! 0) pos
     else if type = TOKEN_EVAL then intrinsic_eval h ev (exprs ! 0) pos
     else if type = TOKEN_RUN then intrinsic_run h ev (exprs ! 0) pos
     else if type = TOKEN_PIPE then intrinsic_pipe h ev (exprs ! 0) (exprs ! 1) pos
     else if type = TOKEN_SLICE then intrinsic_slice ev (exprs ! 0) (exprs ! 1) (exprs ! 2) pos
     else if type = TOKEN_FIND then intrinsic_find ev (exprs ! 0) (exprs ! 1)
     else if type = TOKEN_LENGTH then intrinsic_length ev (exprs ! 0)
     else if type = TOKEN_LOG then intrinsic_log ev (exprs ! 0) pos
     else pure [])"

text \<open>
  The loop over the caller's arguments. The argument is evaluated into \<open>result\<close>; when
  the parameter is already a key of \<open>env_args\<close> the entry takes \<open>result\<close>, otherwise
  the argument is evaluated again for \<^verbatim>\<open>insert_or_assign\<close>. \<^verbatim>\<open>params[i]\<close> beyond the
  callee's parameters is undefined behaviour.
\<close>

fun bind_arguments ::
  "(node_t \<Rightarrow> string eval) \<Rightarrow> string \<Rightarrow> string list \<Rightarrow> position \<Rightarrow> node_t list \<Rightarrow> nat \<Rightarrow> scope
     \<Rightarrow> scope eval" where
  "bind_arguments ev callee_name params callee_pos [] i env_args = pure env_args"
| "bind_arguments ev callee_name params callee_pos (arg # rest) i env_args =
     and_then (ev arg) (\<lambda>result.
       if length params \<le> i then raise (Crash ''parameter index outside params'')
       else case env_args (params ! i) of
         Some old \<Rightarrow>
           and_then (warn_if WARN_PARAM_SHADOW_PARAM callee_pos
             (''parameter '' @ [CHR 0x27] @ params ! i @ [CHR 0x27] @ '' inside function ''
               @ [CHR 0x27] @ callee_name @ [CHR 0x27] @ '' shadows parameter from parent scope.'')) (\<lambda>_.
             bind_arguments ev callee_name params callee_pos rest (Suc i)
               (env_args(params ! i \<mapsto> result)))
       | None \<Rightarrow>
           and_then (ev arg) (\<lambda>again.
             bind_arguments ev callee_name params callee_pos rest (Suc i)
               (env_args(params ! i \<mapsto> again))))"

text \<open>\<^verbatim>\<open>tree.get<wpp::Fn>(id)\<close>: a copy of the definition on top of the stack.\<close>

definition get_Fn :: "node_t \<Rightarrow> (string \<times> string list \<times> node_t \<times> position) eval" where
  "get_Fn n = and_then (get_node n) (\<lambda>v. case v of
       Fn name params body pos \<Rightarrow> pure (name, params, body, pos)
     | _ \<Rightarrow> raise (Crash ''std::bad_variant_access''))"

definition func_not_found :: "position \<Rightarrow> string \<Rightarrow> error" where
  "func_not_found caller_pos caller_name = Exception caller_pos (''func not found: '' @ caller_name @ ''.'')"

definition visit_FnInvoke ::
  "(node_t \<Rightarrow> string eval) \<Rightarrow> string \<Rightarrow> node_t list \<Rightarrow> position \<Rightarrow> string eval" where
  "visit_FnInvoke ev caller_name caller_args caller_pos =
    (let caller_mangled_name = cat caller_name (length caller_args) in
     and_then get_args (\<lambda>args.
     and_then (gets function_table) (\<lambda>functions.
       case (case args of None \<Rightarrow> None | Some scope \<Rightarrow> scope caller_name) of
         Some v \<Rightarrow>
           if length caller_args > 0
             then raise (Exception caller_pos (''calling argument '' @ [CHR 0x27] @ caller_name
                    @ [CHR 0x27] @ '' as if it were a function.''))
           else
             and_then (if functions (cat caller_name 0) \<noteq> None
                       then warn_if WARN_PARAM_SHADOW_FUNC caller_pos
                              (''parameter '' @ caller_name @ '' is shadowing a function.'')
                       else pure ()) (\<lambda>_.
               pure v)
       | None \<Rightarrow>
          (case functions caller_mangled_name of
             None \<Rightarrow> raise (func_not_found caller_pos caller_name)
           | Some stack \<Rightarrow>
               if stack = [] then raise (func_not_found caller_pos caller_name)
               else
                 and_then (get_Fn (last stack)) (\<lambda>(callee_name, params, body, callee_pos).
                 and_then (bind_arguments ev callee_name params callee_pos caller_args 0
                             (case args of None \<Rightarrow> Map.empty | Some scope \<Rightarrow> scope)) (\<lambda>env_args.
                   call_with env_args (ev body)))))))"

text \<open>
  \<^verbatim>\<open>functions.find(key)\<close>, then \<^verbatim>\<open>emplace_back\<close> on the stack found or
  \<^verbatim>\<open>emplace\<close> of a new stack.
\<close>

definition define_function :: "warning_t \<Rightarrow> position \<Rightarrow> string \<Rightarrow> string \<Rightarrow> node_t \<Rightarrow> unit eval" where
  "define_function w pos msg key node_id =
     and_then (gets function_table) (\<lambda>functions.
       case functions key of
         Some stack \<Rightarrow>
           and_then (warn_if w pos msg) (\<lambda>_.
             modify (\<lambda>st. st\<lparr>function_table := (function_table st)(key \<mapsto> stack @ [node_id])\<rparr>))
       | None \<Rightarrow>
           modify (\<lambda>st. st\<lparr>function_table := (function_table st)(key \<mapsto> [node_id])\<rparr>))"

definition visit_Fn :: "node_t \<Rightarrow> string \<Rightarrow> string list \<Rightarrow> node_t \<Rightarrow> position \<Rightarrow> string eval" where
  "visit_Fn node_id name params body pos =
     and_then (define_function WARN_FUNC_REDEFINED pos
                 (''function '' @ [CHR 0x27] @ name @ [CHR 0x27] @ '' redefined.'')
                 (cat name (length params)) node_id) (\<lambda>_.
       pure [])"

definition visit_Codeify ::
  "host \<Rightarrow> (node_t \<Rightarrow> string eval) \<Rightarrow> node_t \<Rightarrow> position \<Rightarrow> string eval" where
  "visit_Codeify h ev expr pos = intrinsic_eval h ev expr pos"

text \<open>
  The local \<^verbatim>\<open>str\<close> of the visitor hides the result variable of \<^verbatim>\<open>eval_ast\<close>, which
  stays empty.
\<close>

definition visit_Var ::
  "(node_t \<Rightarrow> string eval) \<Rightarrow> node_t \<Rightarrow> string \<Rightarrow> node_t \<Rightarrow> position \<Rightarrow> string eval" where
  "visit_Var ev node_id name body pos =
    (let func_name = cat name 0 in
     and_then (ev body) (\<lambda>str.
     and_then (replace body (String str pos)) (\<lambda>_.
     and_then (replace node_id (Fn func_name [] body pos)) (\<lambda>_.
     and_then (define_function WARN_VARFUNC_REDEFINED pos
                 (''function/variable '' @ [CHR 0x27] @ name @ [CHR 0x27] @ '' redefined.'')
                 func_name node_id) (\<lambda>_.
       pure [])))))"

text \<open>
  \<^verbatim>\<open>if (it != functions.end()) { if (not it->second.empty()) it->second.pop_back();
  else functions.erase(it); } else throw ...\<close>
\<close>

definition visit_Drop :: "node_t \<Rightarrow> position \<Rightarrow> string eval" where
  "visit_Drop func_id pos =
     and_then (get_node func_id) (\<lambda>func.
       case func of
         FnInvoke caller_name caller_args caller_pos \<Rightarrow>
           (let caller_mangled_name = cat caller_name (length caller_args) in
            and_then (gets function_table) (\<lambda>functions.
              case functions caller_mangled_name of
                Some stack \<Rightarrow>
                  and_then (if stack \<noteq> []
                    then modify (\<lambda>st. st\<lparr>function_table :=
                           (function_table st)(caller_mangled_name \<mapsto> butlast stack)\<rparr>)
                    else modify (\<lambda>st. st\<lparr>function_table :=
                           (function_table st)(caller_mangled_name := None)\<rparr>)) (\<lambda>_.
                    pure [])
              | None \<Rightarrow>
                  raise (Exception pos (''cannot drop undefined function '' @ [CHR 0x27]
                    @ caller_name @ [CHR 0x27] @ '' ('' @ to_string (length caller_args)
                    @ '' parameters).''))))
       | _ \<Rightarrow> raise (Exception pos ''invalid function passed to drop.''))"

definition visit_String :: "string \<Rightarrow> string eval" where
  "visit_String val = pure val"

text \<open>The spec fixes the order of the two operands of \<^verbatim>\<open>+\<close>: left, then right.\<close>

definition visit_Concat :: "(node_t \<Rightarrow> string eval) \<Rightarrow> node_t \<Rightarrow> node_t \<Rightarrow> string eval" where
  "visit_Concat ev lhs rhs =
     and_then (ev lhs) (\<lambda>l.
     and_then (ev rhs) (\<lambda>r.
       pure (l @ r)))"

text \<open>\<^verbatim>\<open>for (const wpp::node_t node: stmts) str += eval_ast(node, env, args);\<close>\<close>

fun eval_stmts :: "(node_t \<Rightarrow> string eval) \<Rightarrow> node_t list \<Rightarrow> string \<Rightarrow> string eval" where
  "eval_stmts ev [] str = pure str"
| "eval_stmts ev (node # rest) str = and_then (ev node) (\<lambda>s. eval_stmts ev rest (str @ s))"

text \<open>The loop fills \<^verbatim>\<open>str\<close>; the assignment after it replaces what the loop built.\<close>

definition visit_Block :: "(node_t \<Rightarrow> string eval) \<Rightarrow> node_t list \<Rightarrow> node_t \<Rightarrow> string eval" where
  "visit_Block ev stmts expr =
     and_then (eval_stmts ev stmts []) (\<lambda>str.
     and_then (ev expr) (\<lambda>str'.
       pure str'))"

text \<open>\<^verbatim>\<open>std::find_if\<close> over the arms: the first arm whose pattern evaluates to the test string.\<close>

fun find_if ::
  "(node_t \<Rightarrow> string eval) \<Rightarrow> string \<Rightarrow> (node_t \<times> node_t) list \<Rightarrow> (node_t \<times> node_t) option eval" where
  "find_if ev test_str [] = pure None"
| "find_if ev test_str (elem # rest) =
     and_then (ev (fst elem)) (\<lambda>s.
       if test_str = s then pure (Some elem) else find_if ev test_str rest)"

definition visit_Map ::
  "(node_t \<Rightarrow> string eval) \<Rightarrow> node_t \<Rightarrow> (node_t \<times> node_t) list \<Rightarrow> node_t \<Rightarrow> position \<Rightarrow> string eval" where
  "visit_Map ev test cases default_case pos =
     and_then (ev test) (\<lambda>test_str.
     and_then (find_if ev test_str cases) (\<lambda>it.
       case it of
         Some arm \<Rightarrow> ev (snd arm)
       | None \<Rightarrow>
           if default_case = NODE_EMPTY then raise (Exception pos ''no matches found.'')
           else ev default_case))"

text \<open>
  One round of the loop of the \<^verbatim>\<open>Pre\<close> visitor. The node of the statement is read
  when its round starts. For a function the prefix expressions are evaluated last to
  first, the identifier the node then holds gets the prefix in front, and the node is
  evaluated; a write through the pointer to a node that is no function any more is
  undefined behaviour. For a nested prefix scope the prefix expressions of this one are
  added behind its own.
\<close>

definition pre_stmt ::
  "(node_t \<Rightarrow> string eval) \<Rightarrow> node_t list \<Rightarrow> node_t \<Rightarrow> string eval" where
  "pre_stmt ev exprs stmt =
     and_then (get_node stmt) (\<lambda>v.
       case v of
         Fn identifier params body fpos \<Rightarrow>
           and_then (eval_stmts ev (rev exprs) []) (\<lambda>name.
           and_then (get_node stmt) (\<lambda>v'.
             case v' of
               Fn identifier' params' body' fpos' \<Rightarrow>
                 and_then (replace stmt (Fn (name @ identifier') params' body' fpos')) (\<lambda>_.
                   ev stmt)
             | _ \<Rightarrow> raise (Crash ''write through a stale node pointer'')))
       | Pre pexprs pstmts ppos \<Rightarrow>
           and_then (replace stmt (Pre (pexprs @ exprs) pstmts ppos)) (\<lambda>_.
             ev stmt)
       | _ \<Rightarrow> ev stmt)"

fun pre_stmts ::
  "(node_t \<Rightarrow> string eval) \<Rightarrow> node_t list \<Rightarrow> node_t list \<Rightarrow> string \<Rightarrow> string eval" where
  "pre_stmts ev exprs [] str = pure str"
| "pre_stmts ev exprs (stmt # rest) str =
     and_then (pre_stmt ev exprs stmt) (\<lambda>s. pre_stmts ev exprs rest (str @ s))"

definition visit_Pre :: "(node_t \<Rightarrow> string eval) \<Rightarrow> node_t list \<Rightarrow> node_t list \<Rightarrow> string eval" where
  "visit_Pre ev exprs stmts = pre_stmts ev exprs stmts []"

definition visit_Document :: "(node_t \<Rightarrow> string eval) \<Rightarrow> node_t list \<Rightarrow> string eval" where
  "visit_Document ev stmts = eval_stmts ev stmts []"

subsection \<open>The core of the evaluator\<close>

text \<open>
  \<^verbatim>\<open>wpp::visit(variant, ...)\<close> on the node that \<^verbatim>\<open>env.tree[node_id]\<close> holds when the
  call starts; the visitor works on the fields it read from that node.
\<close>

definition visit :: "host \<Rightarrow> (node_t \<Rightarrow> string eval) \<Rightarrow> node_t \<Rightarrow> string eval" where
  "visit h ev node_id =
     and_then (get_node node_id) (\<lambda>variant.
       case variant of
         Intrinsic type name exprs pos \<Rightarrow> visit_Intrinsic h ev node_id type name exprs pos
       | FnInvoke caller_name caller_args caller_pos \<Rightarrow>
           visit_FnInvoke ev caller_name caller_args caller_pos
       | Fn name params body pos \<Rightarrow> visit_Fn node_id name params body pos
       | Codeify expr pos \<Rightarrow> visit_Codeify h ev expr pos
       | Var name body pos \<Rightarrow> visit_Var ev node_id name body pos
       | Drop func_id pos \<Rightarrow> visit_Drop func_id pos
       | String val pos \<Rightarrow> visit_String val
       | Concat lhs rhs pos \<Rightarrow> visit_Concat ev lhs rhs
       | Block stmts expr pos \<Rightarrow> visit_Block ev stmts expr
       | Map test cases default_case pos \<Rightarrow> visit_Map ev test cases default_case pos
       | Pre exprs stmts pos \<Rightarrow> visit_Pre ev exprs stmts
       | Document stmts \<Rightarrow> visit_Document ev stmts)"

text \<open>
  \<^verbatim>\<open>eval_ast(node_id, env, args)\<close> with a bound on the depth of the recursion: every
  nested call has one unit of fuel less, and a call without fuel does not return.
\<close>

primrec eval_ast :: "host \<Rightarrow> nat \<Rightarrow> node_t \<Rightarrow> string eval" where
  "eval_ast h 0 node_id = (\<lambda>s. None)"
| "eval_ast h (Suc fuel) node_id = visit h (eval_ast h fuel) node_id"

subsection \<open>Notions the properties are stated with\<close>

text \<open>
  The nodes of a list evaluated one after the other, each in the frame the one before
  left: the strings they return, in order.
\<close>

fun eval_seq :: "(node_t \<Rightarrow> string eval) \<Rightarrow> node_t list \<Rightarrow> string list eval" where
  "eval_seq ev [] = pure []"
| "eval_seq ev (n # ns) =
     and_then (ev n) (\<lambda>s.
     and_then (eval_seq ev ns) (\<lambda>ss.
       pure (s # ss)))"

text \<open>The decimal numeral of an integer, as a wot++ program writes an index.\<close>

definition decimal :: "int \<Rightarrow> string" where
  "decimal i = (if i < 0 then CHR ''-'' # to_string (nat (- i)) else to_string (nat i))"

text \<open>The node that a handle refers to in a frame, if the handle is inside the arena.\<close>

definition node_at :: "frame \<Rightarrow> node_t \<Rightarrow> node option" where
  "node_at s n = (if n < length (tree (fst s)) then Some (tree (fst s) ! n) else None)"


text \<open>Whatever the first computation returns, the second one returns as well.\<close>

definition le_eval :: "'a eval \<Rightarrow> 'a eval \<Rightarrow> bool" where
  "le_eval m m' = (\<forall>s r. m s = Some r \<longrightarrow> m' s = Some r)"

subsection \<open>A host and programs to run\<close>

text \<open>\<^verbatim>\<open>main\<close> switches every warning on.\<close>

definition all_warnings :: "warning_t set" where
  "all_warnings =
     {WARN_FUNC_REDEFINED, WARN_PARAM_SHADOW_FUNC, WARN_PARAM_SHADOW_PARAM, WARN_VARFUNC_REDEFINED}"

text \<open>
  The environment that \<^verbatim>\<open>wpp::run\<close> builds: the base is the working directory, the
  function table is empty, the arena is what the parser returned.
\<close>

definition initial_state :: "path \<Rightarrow> node list \<Rightarrow> state" where
  "initial_state dir t =
     \<lparr>base = dir, function_table = Map.empty, tree = t, warnings = all_warnings,
      current_path = dir, cerr = []\<rparr>"

definition at :: position where
  "at = Position 1 1"

text \<open>The two files of the example host: one whose evaluation fails, one that evaluates.\<close>

definition failing_text :: string where
  "failing_text = ''error('' @ [CHR 0x22] @ ''boom'' @ [CHR 0x22] @ '')''"

definition fine_text :: string where
  "fine_text = [CHR 0x22] @ ''hi'' @ [CHR 0x22]"

text \<open>
  A host with the directory \<^verbatim>\<open>/home\<close>, the files \<^verbatim>\<open>/home/sub/inc.wpp\<close> and
  \<^verbatim>\<open>/home/sub/ok.wpp\<close>, a parser that knows the two texts, and a shell in which
  \<^verbatim>\<open>true\<close> prints nothing, \<^verbatim>\<open>echo hi\<close> prints a line and \<^verbatim>\<open>cat\<close> copies its
  input.
\<close>

definition example_host :: host where
  "example_host =
     \<lparr>read_file = (\<lambda>cwd name.
        if cwd = ''/home'' \<and> name = ''sub/inc.wpp'' then Some failing_text
        else if cwd = ''/home'' \<and> name = ''sub/ok.wpp'' then Some fine_text
        else None),
      document = (\<lambda>p text t.
        if text = failing_text
          then (Inr (length t), t @ [Document [length t + 1],
                  Intrinsic TOKEN_ERROR ''error'' [length t + 2] at, String ''boom'' at])
        else if text = fine_text
          then (Inr (length t), t @ [Document [length t + 1], String ''hi'' at])
        else (Inl (Exception at ''syntax error''), t)),
      exec = (\<lambda>cmd.
        if cmd = ''true'' then ([], 0)
        else if cmd = ''echo hi'' then (''hi'' @ [CHR 0x0A], 0)
        else ([], 127)),
      exec_pipe = (\<lambda>cmd data. if cmd = ''cat'' then (data, 0) else ([], 127)),
      path_append = (\<lambda>p name. p @ ''/'' @ name),
      parent_path = (\<lambda>p. rev (tl (dropWhile (\<lambda>c. c \<noteq> CHR ''/'') (rev p)))),
      relative = (\<lambda>p b. drop (length b + 1) p),
      WPP_DISABLE_RUN = False\<rparr>"

text \<open>What a run leaves: the outcome with one component of the final state.\<close>

definition outcome_and :: "(state \<Rightarrow> 'b) \<Rightarrow> ('a outcome \<times> frame) option \<Rightarrow> ('a outcome \<times> 'b) option" where
  "outcome_and f r = map_option (\<lambda>(x, (st, a)). (x, f st)) r"

definition outcome_of :: "('a outcome \<times> frame) option \<Rightarrow> 'a outcome option" where
  "outcome_of r = map_option fst r"

text \<open>
  The block \<^verbatim>\<open>{ log("x"); "s"; "r" }\<close> at node 0, before it runs and after its two
  statements.
\<close>

definition block_start :: frame where
  "block_start = (initial_state ''/home''
      [Block [1, 3] 4 at, Intrinsic TOKEN_LOG ''log'' [2] at, String ''x'' at, String ''s'' at,
       String ''r'' at], None)"

definition block_after_statements :: frame where
  "block_after_statements = (fst block_start\<lparr>cerr := [Logged ''x'']\<rparr>, None)"

text \<open>
  \<^verbatim>\<open>match "b" { log("p1") -> "1", "b" -> "2", log("late") -> "x", * -> "3" }\<close> at
  node 0, before it runs and after the patterns of its first two arms; and
  \<^verbatim>\<open>match "z" { "a" -> "1" }\<close>, which has no default.
\<close>

definition map_start :: frame where
  "map_start = (initial_state ''/home''
      [Map 1 [(2, 3), (4, 5), (6, 7)] 8 at, String ''b'' at,
       Intrinsic TOKEN_LOG ''log'' [9] at, String ''1'' at, String ''b'' at, String ''2'' at,
       Intrinsic TOKEN_LOG ''log'' [10] at, String ''x'' at, String ''3'' at,
       String ''p1'' at, String ''late'' at], None)"

definition map_after_patterns :: frame where
  "map_after_patterns = (fst map_start\<lparr>cerr := [Logged ''p1'']\<rparr>, None)"

definition map_no_match :: frame where
  "map_no_match = (initial_state ''/home''
      [Map 1 [(2, 3)] NODE_EMPTY at, String ''z'' at, String ''a'' at, String ''1'' at], None)"


text \<open>
  One arena with \<^verbatim>\<open>prefix { let g() => "hi"; "a" }\<close> without prefix expressions at
  node 0 and the block of the same statements with the trailing expression \<^verbatim>\<open>""\<close>
  at node 1; and the frame that either of them leaves.
\<close>

definition pre_block_start :: frame where
  "pre_block_start = (initial_state ''/home''
      [Pre [] [2, 4] at, Block [2, 4] 5 at, Fn ''g'' [] 3 at, String ''hi'' at, String ''a'' at,
       String [] at], None)"

definition pre_block_end :: frame where
  "pre_block_end = (fst pre_block_start\<lparr>function_table := [cat ''g'' 0 \<mapsto> [2]]\<rparr>, None)"

section \<open>Properties\<close>

subsection \<open>Sequencing laws\<close>

lemma and_then_pure [simp]: "and_then (pure x) f = f x"
  by (simp add: and_then_def pure_def)

lemma and_then_raise [simp]: "and_then (raise e) f = raise e"
  by (simp add: and_then_def raise_def)

lemma and_then_assoc: "and_then (and_then m f) g = and_then m (\<lambda>x. and_then (f x) g)"
  by (auto simp: and_then_def fun_eq_iff split: option.splits outcome.splits prod.splits)

lemma and_then_Ok: "m s = Some (Ok x, s') \<Longrightarrow> and_then m f s = f x s'"
  by (simp add: and_then_def)

lemma and_then_Throw: "m s = Some (Throw e, s') \<Longrightarrow> and_then m f s = Some (Throw e, s')"
  by (simp add: and_then_def)

lemma and_then_None: "m s = None \<Longrightarrow> and_then m f s = None"
  by (simp add: and_then_def)

lemma get_node_node_at: "node_at s n = Some v \<Longrightarrow> get_node n s = Some (Ok v, s)"
  by (cases s) (simp add: node_at_def get_node_def and_then_def gets_def pure_def split: if_splits)

text \<open>The statement loop returns what it was given followed by the strings of the statements.\<close>

lemma eval_stmts_eval_seq:
  "eval_stmts ev ns acc = and_then (eval_seq ev ns) (\<lambda>ss. pure (acc @ concat ss))"
proof (induction ns arbitrary: acc)
  case Nil
  show ?case by simp
next
  case (Cons n ns)
  show ?case
    by (simp add: Cons.IH and_then_assoc)
qed

text \<open>The equations that run a program on a given arena.\<close>

lemmas run_defs =
  pure_def raise_def and_then_def gets_def modify_def get_args_def call_with_def get_node_def
  replace_def warn_def warn_if_def lift_def visit_def visit_String_def visit_Concat_def
  visit_Block_def visit_Document_def visit_Intrinsic_def intrinsic_arg_n_def intrinsic_log_def
  visit_FnInvoke_def visit_Fn_def visit_Var_def visit_Drop_def visit_Map_def visit_Pre_def
  pre_stmt_def define_function_def get_Fn_def func_not_found_def cat_def
  initial_state_def all_warnings_def node_at_def
subsection \<open>Sequences of evaluations\<close>

lemma eval_seq_Cons_Ok:
  "eval_seq ev (n # ns) s = Some (Ok outs, s') \<Longrightarrow>
     \<exists>out rest s1. outs = out # rest \<and> ev n s = Some (Ok out, s1) \<and> eval_seq ev ns s1 = Some (Ok rest, s')"
  by (auto simp: and_then_def pure_def split: option.splits outcome.splits prod.splits)

lemma find_if_first_match:
  assumes "j < length cases"
    and "eval_seq ev (map fst (take (Suc j) cases)) s1 = Some (Ok pats, s2)"
    and "\<forall>i<j. pats ! i \<noteq> test_str"
    and "pats ! j = test_str"
  shows "find_if ev test_str cases s1 = Some (Ok (Some (cases ! j)), s2)"
  using assms
proof (induction cases arbitrary: j pats s1)
  case Nil
  then show ?case by simp
next
  case (Cons elem rest)
  have "eval_seq ev (fst elem # map fst (take j rest)) s1 = Some (Ok pats, s2)"
    using Cons.prems(2) by simp
  from eval_seq_Cons_Ok [OF this] obtain out outs s1' where
    pats: "pats = out # outs" and
    hd: "ev (fst elem) s1 = Some (Ok out, s1')" and
    tl: "eval_seq ev (map fst (take j rest)) s1' = Some (Ok outs, s2)"
    by blast
  show ?case
  proof (cases j)
    case 0
    with tl have "s1' = s2" by (simp add: pure_def)
    with 0 Cons.prems(4) pats hd show ?thesis
      by (simp add: and_then_Ok pure_def)
  next
    case (Suc k)
    with Cons.prems(3) pats have ne: "out \<noteq> test_str" by auto
    have "find_if ev test_str rest s1' = Some (Ok (Some (rest ! k)), s2)"
    proof (rule Cons.IH)
      show "k < length rest" using Cons.prems(1) Suc by simp
      show "eval_seq ev (map fst (take (Suc k) rest)) s1' = Some (Ok outs, s2)"
        using tl Suc by simp
      show "\<forall>i<k. outs ! i \<noteq> test_str"
        using Cons.prems(3) pats Suc by auto
      show "outs ! k = test_str"
        using Cons.prems(4) pats Suc by simp
    qed
    with hd ne Suc show ?thesis
      by (auto simp: and_then_Ok)
  qed
qed

lemma find_if_no_match:
  assumes "eval_seq ev (map fst cases) s1 = Some (Ok pats, s2)"
    and "test_str \<notin> set pats"
  shows "find_if ev test_str cases s1 = Some (Ok None, s2)"
  using assms
proof (induction cases arbitrary: pats s1)
  case Nil
  then show ?case by (simp add: pure_def)
next
  case (Cons elem rest)
  have "eval_seq ev (fst elem # map fst rest) s1 = Some (Ok pats, s2)"
    using Cons.prems(1) by simp
  from eval_seq_Cons_Ok [OF this] obtain out outs s1' where
    pats: "pats = out # outs" and
    hd: "ev (fst elem) s1 = Some (Ok out, s1')" and
    tl: "eval_seq ev (map fst rest) s1' = Some (Ok outs, s2)"
    by blast
  from Cons.prems(2) pats have ne: "test_str \<noteq> out" and notin: "test_str \<notin> set outs"
    by auto
  from Cons.IH [OF tl notin] hd ne show ?case
    by (simp add: and_then_Ok)
qed

text \<open>A prefix scope without prefix expressions runs its statements as they are.\<close>

lemma get_node_outside:
  "node_at s n = None \<Longrightarrow> get_node n s = Some (Throw (Crash ''node index outside the arena''), s)"
  by (cases s) (simp add: node_at_def get_node_def and_then_def gets_def raise_def split: if_splits)

lemma replace_same: "node_at s n = Some v \<Longrightarrow> replace n v s = Some (Ok (), s)"
  by (cases s)
     (auto simp: node_at_def replace_def and_then_def gets_def modify_def split: if_splits)

lemma pre_stmt_no_prefix:
  "pre_stmt (eval_ast h (Suc fuel)) [] stmt s = eval_ast h (Suc fuel) stmt s"
proof (cases "node_at s stmt")
  case None
  then show ?thesis
    by (simp add: pre_stmt_def visit_def get_node_outside and_then_Throw)
next
  case (Some v)
  note node = get_node_node_at [OF Some]
  have again: "\<And>f. and_then (get_node stmt) f s = f v s"
    using node by (simp add: and_then_Ok)
  show ?thesis
  proof (cases v)
    case (Fn ident params body fpos)
    then have "replace stmt (Fn ident params body fpos) s = Some (Ok (), s)"
      using Some by (simp add: replace_same)
    then show ?thesis
      using Fn by (simp add: pre_stmt_def again and_then_Ok del: eval_ast.simps)
  next
    case (Pre pexprs pstmts ppos)
    then have "replace stmt (Pre pexprs pstmts ppos) s = Some (Ok (), s)"
      using Some by (simp add: replace_same)
    then show ?thesis
      using Pre by (simp add: pre_stmt_def again and_then_Ok del: eval_ast.simps)
  qed (simp_all add: pre_stmt_def again del: eval_ast.simps)
qed

lemma pre_stmts_no_prefix:
  "pre_stmts (eval_ast h (Suc fuel)) [] stmts acc = eval_stmts (eval_ast h (Suc fuel)) stmts acc"
proof (induction stmts arbitrary: acc)
  case Nil
  show ?case by simp
next
  case (Cons stmt rest)
  have "pre_stmt (eval_ast h (Suc fuel)) [] stmt = eval_ast h (Suc fuel) stmt"
    by (rule ext) (rule pre_stmt_no_prefix)
  then show ?case
    by (simp add: Cons.IH del: eval_ast.simps)
qed

lemma eval_String: "node_at s n = Some (String val pos) \<Longrightarrow> eval_ast h (Suc fuel) n s = Some (Ok val, s)"
  by (simp add: visit_def get_node_node_at and_then_Ok visit_String_def pure_def)
subsection \<open>No visitor writes through the pointer to the argument scope\<close>



































subsection \<open>Searching, printing and reading numbers\<close>

lemma find_from_Some:
  "find_from k s p = Some i \<Longrightarrow>
     \<exists>j. i = k + j \<and> j \<le> length s \<and> prefix p (drop j s) \<and> (\<forall>j'<j. \<not> prefix p (drop j' s))"
proof (induction k s p arbitrary: i rule: find_from.induct)
  case (1 k s p)
  show ?case
  proof (cases "prefix p s")
    case True
    with "1.prems" have "i = k" by (simp add: find_from.simps)
    with True show ?thesis by (intro exI [of _ 0]) simp
  next
    case False
    with "1.prems" obtain c rest where s: "s = c # rest" and
      run: "find_from (Suc k) rest p = Some i"
      by (cases s) (auto simp: find_from.simps [of k])
    from "1.IH" [OF False s run] obtain j where
      j: "i = Suc k + j" "j \<le> length rest" "prefix p (drop j rest)"
         "\<forall>j'<j. \<not> prefix p (drop j' rest)"
      by blast
    have "\<forall>j'<Suc j. \<not> prefix p (drop j' s)"
    proof (intro allI impI)
      fix j' assume "j' < Suc j"
      then show "\<not> prefix p (drop j' s)"
        using False j(4) s by (cases j') auto
    qed
    with j s show ?thesis
      by (intro exI [of _ "Suc j"]) simp
  qed
qed

lemma find_from_None: "find_from k s p = None \<Longrightarrow> \<not> prefix p (drop j s)"
proof (induction k s p arbitrary: j rule: find_from.induct)
  case (1 k s p)
  from "1.prems" have np: "\<not> prefix p s"
    by (auto simp: find_from.simps [of k s] split: if_splits)
  show ?case
  proof (cases s)
    case Nil
    with np show ?thesis by simp
  next
    case (Cons c rest)
    with "1.prems" np have "find_from (Suc k) rest p = None"
      by (simp add: find_from.simps [of k])
    from "1.IH" [OF np Cons this] have "\<And>j. \<not> prefix p (drop j rest)" .
    with np Cons show ?thesis by (cases j) auto
  qed
qed

lemma sublist_iff_prefix_drop: "sublist p s \<longleftrightarrow> (\<exists>j. prefix p (drop j s))"
proof
  assume "sublist p s"
  then obtain ps ss where "s = ps @ p @ ss" by (auto simp: sublist_def)
  then have "prefix p (drop (length ps) s)" by simp
  then show "\<exists>j. prefix p (drop j s)" ..
next
  assume "\<exists>j. prefix p (drop j s)"
  then obtain j ss where "drop j s = p @ ss" by (auto simp: prefix_def)
  then have "s = take j s @ p @ ss" by (metis append_take_drop_id)
  then show "sublist p s" by (auto simp: sublist_def)
qed

lemma str_find_None_iff: "str_find s p = None \<longleftrightarrow> \<not> sublist p s"
proof
  assume "str_find s p = None"
  then show "\<not> sublist p s"
    by (auto simp: str_find_def sublist_iff_prefix_drop dest: find_from_None)
next
  assume n: "\<not> sublist p s"
  show "str_find s p = None"
  proof (cases "str_find s p")
    case (Some i)
    then have "\<exists>j. prefix p (drop j s)"
      unfolding str_find_def by (blast dest: find_from_Some)
    with n show ?thesis by (simp add: sublist_iff_prefix_drop)
  qed simp
qed

lemma str_find_Some:
  "str_find s p = Some i \<Longrightarrow>
     i \<le> length s \<and> prefix p (drop i s) \<and> (\<forall>j<i. \<not> prefix p (drop j s))"
  unfolding str_find_def by (auto dest: find_from_Some)

lemma to_string_not_empty: "to_string n \<noteq> []"
  by (subst to_string.simps) simp

lemma digit_val_digit_char: "d < 10 \<Longrightarrow> digit_val (digit_char d) = Some d"
  by (simp add: digit_val_def digit_char_def)

lemma isdigit_digit_char: "d < 10 \<Longrightarrow> isdigit (digit_char d)"
  by (simp add: isdigit_def digit_val_digit_char)

lemma isdigit_not_space: "isdigit c \<Longrightarrow> \<not> isspace c"
  by (auto simp: isdigit_def digit_val_def isspace_def Let_def split: if_splits)

lemma isdigit_not_sign: "isdigit c \<Longrightarrow> c \<noteq> CHR ''-'' \<and> c \<noteq> CHR ''+''"
  by (auto simp: isdigit_def digit_val_def Let_def split: if_splits)

lemma to_string_digits: "c \<in> set (to_string n) \<Longrightarrow> isdigit c"
proof (induction n arbitrary: c rule: to_string.induct)
  case (1 n)
  show ?case
  proof (cases "n < 10")
    case True
    with "1.prems" show ?thesis
      by (simp add: to_string.simps [of n] isdigit_digit_char)
  next
    case False
    with "1.prems" have "c \<in> set (to_string (n div 10)) \<or> c = digit_char (n mod 10)"
      by (auto simp: to_string.simps [of n])
    then show ?thesis
      using "1.IH" [OF False] by (auto simp: isdigit_digit_char)
  qed
qed

lemma digits_value_snoc:
  "digits_value (ds @ [c]) = digits_value ds * 10 + (case digit_val c of Some d \<Rightarrow> int d | None \<Rightarrow> 0)"
  by (simp add: digits_value_def)

lemma digits_value_to_string: "digits_value (to_string n) = int n"
proof (induction n rule: to_string.induct)
  case (1 n)
  show ?case
  proof (cases "n < 10")
    case True
    then show ?thesis
      by (simp add: to_string.simps [of n] digits_value_def digit_val_digit_char)
  next
    case False
    then have "digits_value (to_string n)
        = digits_value (to_string (n div 10)) * 10 + int (n mod 10)"
      by (simp add: to_string.simps [of n] digits_value_snoc digit_val_digit_char)
    also have "\<dots> = int (n div 10) * 10 + int (n mod 10)"
      using "1.IH" [OF False] by simp
    also have "\<dots> = int n"
      by (simp add: zdiv_int zmod_int)
    finally show ?thesis .
  qed
qed

lemma stoi_to_string:
  assumes "int n \<le> INT_MAX"
  shows "stoi (to_string n) = Some (int n)"
proof -
  obtain c cs where s: "to_string n = c # cs"
    using to_string_not_empty [of n] by (cases "to_string n") auto
  have all: "\<forall>x \<in> set (to_string n). isdigit x"
    by (auto dest: to_string_digits)
  then have c: "isdigit c" using s by simp
  have drop: "dropWhile isspace (to_string n) = to_string n"
    using s c by (simp add: isdigit_not_space)
  have take: "takeWhile isdigit (to_string n) = to_string n"
    using all by (simp add: takeWhile_eq_all_conv)
  have sign: "hd (to_string n) \<noteq> CHR ''-''" "hd (to_string n) \<noteq> CHR ''+''"
    using s c isdigit_not_sign by auto
  show ?thesis
    using assms to_string_not_empty [of n]
    by (simp add: stoi_def drop take sign digits_value_to_string INT_MIN_def INT_MAX_def Let_def)
qed

lemma wrap32_id: "INT_MIN \<le> x \<Longrightarrow> x \<le> INT_MAX \<Longrightarrow> wrap32 x = x"
  by (simp add: wrap32_def INT_MIN_def INT_MAX_def)


lemma substr_prefix:
  assumes "prefix p (drop i s)" and "i \<le> length s"
  shows "substr s (int i) (int (length p)) = Inr p"
proof -
  from assms(1) obtain ss where "drop i s = p @ ss" by (auto simp: prefix_def)
  then have "take (length p) (drop i s) = p" by simp
  with assms(2) show ?thesis by (simp add: substr_def)
qed

lemma prefix_drop_length: "prefix p (drop i s) \<Longrightarrow> i \<le> length s \<Longrightarrow> i + length p \<le> length s"
proof -
  assume "prefix p (drop i s)" and "i \<le> length s"
  then have "length p \<le> length (drop i s)" by (intro prefix_length_le)
  then show ?thesis using \<open>i \<le> length s\<close> by simp
qed

lemma decimal_nat: "0 \<le> i \<Longrightarrow> decimal i = to_string (nat i)"
  by (simp add: decimal_def)

lemma slice_at_occurrence:
  assumes occ: "prefix p (drop i s)" and i: "i \<le> length s"
    and p: "p \<noteq> []" and len: "int (length s) \<le> INT_MAX"
  shows "slice pos s (to_string i) (decimal (int i + int (length p) - 1)) = Inr p"
proof -
  have bound: "i + length p \<le> length s"
    using occ i by (rule prefix_drop_length)
  have lp: "1 \<le> int (length p)" using p by (cases p) simp_all
  let ?e = "int i + int (length p) - 1"
  have e0: "0 \<le> ?e" using lp by linarith
  have eq: "decimal ?e = to_string (nat ?e)" using e0 by (rule decimal_nat)
  have start: "stoi (to_string i) = Some (int i)"
    using i len by (intro stoi_to_string) simp
  have "int (nat ?e) \<le> INT_MAX" using bound len e0 by linarith
  then have "stoi (to_string (nat ?e)) = Some (int (nat ?e))" by (rule stoi_to_string)
  then have stop: "stoi (decimal ?e) = Some ?e" using e0 eq by simp
  have w1: "wrap32 (int (length s)) = int (length s)"
    using len by (simp add: wrap32_id INT_MIN_def)
  have w2: "wrap32 (?e - int i) = int (length p) - 1"
    using bound len lp by (intro wrap32_id [THEN trans]) (simp_all add: INT_MIN_def INT_MAX_def)
  have w3: "wrap32 (int (length p) - 1 + 1) = int (length p)"
    using bound len by (intro wrap32_id [THEN trans]) (simp_all add: INT_MIN_def INT_MAX_def)
  have w4: "wrap32 (int i + int (length p)) = int i + int (length p)"
    using bound len by (intro wrap32_id) (simp_all add: INT_MIN_def INT_MAX_def)
  have neg: "\<not> ?e < 0" "\<not> int i < 0" "\<not> int (length p) \<le> 0"
    and fits: "\<not> int (length s) < int i + int (length p)"
    using e0 lp bound by linarith+
  show ?thesis
    by (simp only: slice_def start stop option.case Let_def w1 w2 w3 w4 neg fits if_False
          substr_prefix [OF occ i] simp_thms)
qed


lemma to_string_inject: "to_string a = to_string b \<Longrightarrow> a = b"
proof -
  assume "to_string a = to_string b"
  then have "digits_value (to_string a) = digits_value (to_string b)" by simp
  then show "a = b" by (simp add: digits_value_to_string)
qed

lemma find_index_empty_iff: "find_index s p = [] \<longleftrightarrow> str_find s p = None"
  by (simp add: find_index_def to_string_not_empty split: option.splits)

lemma find_index_decimal: "find_index s p = to_string i \<longleftrightarrow> str_find s p = Some i"
  using to_string_not_empty [of i]
  by (auto simp: find_index_def split: option.splits dest: to_string_inject)
subsection \<open>More fuel changes no result\<close>

text \<open>
  A call that returns with some fuel returns the same outcome and the same frame with any
  larger amount: what the properties below compute with a given fuel is what the program
  does.
\<close>

lemma le_evalI: "(\<And>s r. m s = Some r \<Longrightarrow> m' s = Some r) \<Longrightarrow> le_eval m m'"
  unfolding le_eval_def by blast

lemma le_evalD: "le_eval m m' \<Longrightarrow> m s = Some r \<Longrightarrow> m' s = Some r"
  unfolding le_eval_def by blast

lemma le_eval_refl: "le_eval m m"
  by (simp add: le_eval_def)

lemma le_eval_and_then:
  assumes "le_eval m m'" and "\<And>x. le_eval (f x) (f' x)"
  shows "le_eval (and_then m f) (and_then m' f')"
proof (rule le_evalI)
  fix s r
  assume run: "and_then m f s = Some r"
  then obtain a where a: "m s = Some a"
    by (cases "m s") (auto simp: and_then_def)
  then have a': "m' s = Some a" using assms(1) by (rule le_evalD [rotated])
  obtain x s1 where xs: "a = (x, s1)" by (cases a)
  show "and_then m' f' s = Some r"
  proof (cases x)
    case (Ok v)
    with run a xs have "f v s1 = Some r" by (simp add: and_then_def)
    then have "f' v s1 = Some r" using assms(2) by (rule le_evalD [rotated])
    with a' xs Ok show ?thesis by (simp add: and_then_def)
  next
    case (Throw e)
    with run a a' xs show ?thesis by (simp add: and_then_def)
  qed
qed

lemma le_eval_call_with: "le_eval m m' \<Longrightarrow> le_eval (call_with env_args m) (call_with env_args m')"
  unfolding le_eval_def call_with_def
  by (auto split: option.splits prod.splits)

lemma le_eval_inside_eval: "le_eval m m' \<Longrightarrow> le_eval (inside_eval pos m) (inside_eval pos m')"
  unfolding le_eval_def inside_eval_def
  by (auto split: option.splits prod.splits outcome.splits error.splits)

lemma le_eval_if: "le_eval a a' \<Longrightarrow> le_eval b b' \<Longrightarrow> le_eval (if c then a else b) (if c then a' else b')"
  by simp

lemma le_eval_case_option:
  "le_eval a a' \<Longrightarrow> (\<And>x. le_eval (f x) (f' x)) \<Longrightarrow>
     le_eval (case v of None \<Rightarrow> a | Some x \<Rightarrow> f x) (case v of None \<Rightarrow> a' | Some x \<Rightarrow> f' x)"
  by (cases v) simp_all

lemma le_eval_case_prod:
  "(\<And>x y. le_eval (f x y) (f' x y)) \<Longrightarrow>
     le_eval (case p of (x, y) \<Rightarrow> f x y) (case p of (x, y) \<Rightarrow> f' x y)"
  by (cases p) simp

lemma le_eval_Let: "le_eval (f x) (f' x) \<Longrightarrow> le_eval (Let x f) (Let x f')"
  by simp

lemmas le_eval_intros =
  le_eval_refl le_eval_and_then le_eval_call_with le_eval_inside_eval le_eval_if
  le_eval_case_option le_eval_case_prod le_eval_Let

lemma le_eval_eval_stmts:
  "(\<And>n. le_eval (ev n) (ev' n)) \<Longrightarrow> le_eval (eval_stmts ev ns acc) (eval_stmts ev' ns acc)"
  by (induction ns arbitrary: acc) (auto intro!: le_eval_intros)

lemma le_eval_find_if:
  "(\<And>n. le_eval (ev n) (ev' n)) \<Longrightarrow> le_eval (find_if ev t cases) (find_if ev' t cases)"
  by (induction cases) (auto intro!: le_eval_intros)

lemma le_eval_bind_arguments:
  "(\<And>n. le_eval (ev n) (ev' n)) \<Longrightarrow>
     le_eval (bind_arguments ev callee_name params callee_pos caller_args i env_args)
             (bind_arguments ev' callee_name params callee_pos caller_args i env_args)"
  by (induction caller_args arbitrary: i env_args) (auto intro!: le_eval_intros)

lemma le_eval_pre_stmt:
  assumes "\<And>n. le_eval (ev n) (ev' n)"
  shows "le_eval (pre_stmt ev exprs stmt) (pre_stmt ev' exprs stmt)"
  unfolding pre_stmt_def
  by (intro le_eval_and_then le_eval_refl)
     (auto intro!: le_eval_intros le_eval_eval_stmts assms split: node.splits)

lemma le_eval_pre_stmts:
  "(\<And>n. le_eval (ev n) (ev' n)) \<Longrightarrow> le_eval (pre_stmts ev exprs stmts acc) (pre_stmts ev' exprs stmts acc)"
  by (induction stmts arbitrary: acc) (auto intro!: le_eval_intros le_eval_pre_stmt)

lemma le_eval_intrinsic_eval:
  "(\<And>n. le_eval (ev n) (ev' n)) \<Longrightarrow> le_eval (intrinsic_eval h ev expr pos) (intrinsic_eval h ev' expr pos)"
  unfolding intrinsic_eval_def by (intro le_eval_intros)

lemma le_eval_visit_Intrinsic:
  assumes "\<And>n. le_eval (ev n) (ev' n)"
  shows "le_eval (visit_Intrinsic h ev node_id type name exprs pos)
                 (visit_Intrinsic h ev' node_id type name exprs pos)"
  unfolding visit_Intrinsic_def intrinsic_assert_def intrinsic_error_def intrinsic_file_def
    intrinsic_source_def intrinsic_escape_def intrinsic_run_def intrinsic_pipe_def
    intrinsic_slice_def intrinsic_find_def intrinsic_length_def intrinsic_log_def
  by (intro le_eval_intros le_eval_intrinsic_eval assms)

lemma le_eval_visit_FnInvoke:
  assumes "\<And>n. le_eval (ev n) (ev' n)"
  shows "le_eval (visit_FnInvoke ev caller_name caller_args caller_pos)
                 (visit_FnInvoke ev' caller_name caller_args caller_pos)"
  unfolding visit_FnInvoke_def
  by (intro le_eval_intros le_eval_bind_arguments assms)

lemma le_eval_visit:
  assumes "\<And>n. le_eval (ev n) (ev' n)"
  shows "le_eval (visit h ev node_id) (visit h ev' node_id)"
  unfolding visit_def
proof (intro le_eval_and_then le_eval_refl)
  fix variant
  show "le_eval
    (case variant of
      String val pos \<Rightarrow> visit_String val
    | Concat lhs rhs pos \<Rightarrow> visit_Concat ev lhs rhs
    | Block stmts expr pos \<Rightarrow> visit_Block ev stmts expr
    | FnInvoke caller_name caller_args caller_pos \<Rightarrow>
        visit_FnInvoke ev caller_name caller_args caller_pos
    | Fn name params body pos \<Rightarrow> visit_Fn node_id name params body pos
    | Var name body pos \<Rightarrow> visit_Var ev node_id name body pos
    | Drop func_id pos \<Rightarrow> visit_Drop func_id pos
    | Codeify expr pos \<Rightarrow> visit_Codeify h ev expr pos
    | Map test cases default_case pos \<Rightarrow> visit_Map ev test cases default_case pos
    | Pre exprs stmts pos \<Rightarrow> visit_Pre ev exprs stmts
    | Intrinsic type name exprs pos \<Rightarrow> visit_Intrinsic h ev node_id type name exprs pos
    | Document stmts \<Rightarrow> visit_Document ev stmts)
    (case variant of
      String val pos \<Rightarrow> visit_String val
    | Concat lhs rhs pos \<Rightarrow> visit_Concat ev' lhs rhs
    | Block stmts expr pos \<Rightarrow> visit_Block ev' stmts expr
    | FnInvoke caller_name caller_args caller_pos \<Rightarrow>
        visit_FnInvoke ev' caller_name caller_args caller_pos
    | Fn name params body pos \<Rightarrow> visit_Fn node_id name params body pos
    | Var name body pos \<Rightarrow> visit_Var ev' node_id name body pos
    | Drop func_id pos \<Rightarrow> visit_Drop func_id pos
    | Codeify expr pos \<Rightarrow> visit_Codeify h ev' expr pos
    | Map test cases default_case pos \<Rightarrow> visit_Map ev' test cases default_case pos
    | Pre exprs stmts pos \<Rightarrow> visit_Pre ev' exprs stmts
    | Intrinsic type name exprs pos \<Rightarrow> visit_Intrinsic h ev' node_id type name exprs pos
    | Document stmts \<Rightarrow> visit_Document ev' stmts)"
  proof (cases variant)
    case (Concat lhs rhs pos)
    then show ?thesis by (auto simp: visit_Concat_def intro!: le_eval_intros assms)
  next
    case (Block stmts expr pos)
    then show ?thesis
      by (auto simp: visit_Block_def intro!: le_eval_intros le_eval_eval_stmts assms)
  next
    case (FnInvoke caller_name caller_args caller_pos)
    then show ?thesis by (simp add: le_eval_visit_FnInvoke assms)
  next
    case (Var name body pos)
    then show ?thesis by (auto simp: visit_Var_def intro!: le_eval_intros assms)
  next
    case (Codeify expr pos)
    then show ?thesis by (simp add: visit_Codeify_def le_eval_intrinsic_eval assms)
  next
    case (Map test cases default_case pos)
    then show ?thesis
      by (auto simp: visit_Map_def intro!: le_eval_intros le_eval_find_if assms)
  next
    case (Pre exprs stmts pos)
    then show ?thesis by (simp add: visit_Pre_def le_eval_pre_stmts assms)
  next
    case (Intrinsic type name exprs pos)
    then show ?thesis by (simp add: le_eval_visit_Intrinsic assms)
  next
    case (Document stmts)
    then show ?thesis by (simp add: visit_Document_def le_eval_eval_stmts assms)
  qed (simp_all add: le_eval_refl)
qed

lemma le_eval_eval_ast_Suc: "le_eval (eval_ast h fuel n) (eval_ast h (Suc fuel) n)"
proof (induction fuel arbitrary: n)
  case 0
  show ?case by (simp add: le_eval_def)
next
  case (Suc fuel)
  have "le_eval (visit h (eval_ast h fuel) n) (visit h (eval_ast h (Suc fuel)) n)"
    by (rule le_eval_visit) (rule Suc.IH)
  then show ?case by simp
qed

lemma eval_ast_more_fuel:
  "eval_ast h fuel n s = Some r \<Longrightarrow> eval_ast h (fuel + k) n s = Some r"
proof (induction k)
  case 0
  then show ?case by simp
next
  case (Suc k)
  then have "eval_ast h (fuel + k) n s = Some r" by simp
  then have "eval_ast h (Suc (fuel + k)) n s = Some r"
    using le_eval_eval_ast_Suc by (rule le_evalD [rotated])
  then show ?case by simp
qed

lemma outcome_and_more_fuel:
  "outcome_and f (eval_ast h fuel n s) = Some v \<Longrightarrow>
     outcome_and f (eval_ast h (fuel + k) n s) = Some v"
  by (auto simp: outcome_and_def dest: eval_ast_more_fuel)

lemma outcome_of_more_fuel:
  "outcome_of (eval_ast h fuel n s) = Some v \<Longrightarrow> outcome_of (eval_ast h (fuel + k) n s) = Some v"
  by (auto simp: outcome_of_def dest: eval_ast_more_fuel)
subsection \<open>The working directory around \<^verbatim>\<open>source\<close>\<close>

text \<open>
  Claim C1: every evaluation of the \<^verbatim>\<open>source\<close> intrinsic restores the working
  directory that was in effect before it ran, on every exit path: when the included
  sub-document evaluates, and when lexing, parsing or evaluating it fails.

  The source sets the directory back with a statement after the evaluation of the
  sub-document, so an exception of that evaluation passes it by. The program is
  \<^verbatim>\<open>source("sub/inc.wpp")\<close> run in \<^verbatim>\<open>/home\<close>. With \<^verbatim>\<open>sub/inc.wpp\<close> holding
  \<^verbatim>\<open>error("boom")\<close> the exception leaves the intrinsic with the working directory
  \<^verbatim>\<open>/home/sub\<close>; with \<^verbatim>\<open>sub/ok.wpp\<close>, which evaluates, the directory is
  \<^verbatim>\<open>/home\<close> again. (Here and below \<open>k\<close> is any amount of fuel beyond what the run
  needs.)
\<close>

theorem source_failure_leaves_directory_changed:
  "outcome_and current_path (eval_ast example_host (5 + k) 0
       (initial_state ''/home''
          [Intrinsic TOKEN_SOURCE ''source'' [1] at, String ''sub/inc.wpp'' at], None))
     = Some (Throw (Exception at ''boom''), ''/home/sub'')
   \<and> outcome_and current_path (eval_ast example_host (5 + k) 0
       (initial_state ''/home''
          [Intrinsic TOKEN_SOURCE ''source'' [1] at, String ''sub/ok.wpp'' at], None))
     = Some (Ok ''hi'', ''/home'')"
  by (intro conjI outcome_and_more_fuel outcome_of_more_fuel; code_simp)

subsection \<open>The arguments of a call\<close>

text \<open>
  Claim C2: for every \<^verbatim>\<open>FnInvoke\<close> that resolves to a function, each argument
  expression of the caller is evaluated exactly once, left to right, in the caller's
  scope, and the string is bound to the callee's parameter at the same position,
  overwriting an entry inherited from the caller's scope.

  The source evaluates an argument a second time when its parameter is not yet a key of
  the new scope. The program is \<^verbatim>\<open>let f(a) => a; f(log("x"))\<close> at top level: the one
  argument writes to the diagnostic stream twice.
\<close>

theorem FnInvoke_evaluates_new_argument_twice:
  "outcome_and cerr (eval_ast example_host (6 + k) 0
       (initial_state ''/home''
          [Document [1, 2], Fn ''f'' [''a''] 3 at, FnInvoke ''f'' [4] at, FnInvoke ''a'' [] at,
           Intrinsic TOKEN_LOG ''log'' [5] at, String ''x'' at], None))
     = Some (Ok [], [Logged ''x'', Logged ''x''])"
  by (intro conjI outcome_and_more_fuel outcome_of_more_fuel; code_simp)

subsection \<open>The stacks of the function table\<close>

text \<open>
  Claim C3: for every name and arity, after any sequence of definitions and drops the
  height of the stack of the key is the number of definitions minus the number of drops,
  and the key is absent from the table whenever that height is zero: a pop that empties
  the stack removes the key.

  The \<^verbatim>\<open>Drop\<close> visitor removes the key only when it finds the stack already empty.
  After \<^verbatim>\<open>let f() => "a"; drop f()\<close> the key \<^verbatim>\<open>f0\<close> is still in the table, with an
  empty stack; a second \<^verbatim>\<open>drop f()\<close> raises nothing and removes the key; and a
  definition after the first drop finds the key and warns of a redefinition.
\<close>

theorem Drop_of_last_definition_keeps_key:
  "outcome_and (\<lambda>st. function_table st (cat ''f'' 0)) (eval_ast example_host (4 + k) 0
       (initial_state ''/home''
          [Document [1, 2], Fn ''f'' [] 3 at, Drop 4 at, String ''a'' at, FnInvoke ''f'' [] at],
        None))
     = Some (Ok [], Some [])
   \<and> outcome_and (\<lambda>st. function_table st (cat ''f'' 0)) (eval_ast example_host (4 + k) 0
       (initial_state ''/home''
          [Document [1, 2, 2], Fn ''f'' [] 3 at, Drop 4 at, String ''a'' at, FnInvoke ''f'' [] at],
        None))
     = Some (Ok [], None)
   \<and> outcome_and cerr (eval_ast example_host (4 + k) 0
       (initial_state ''/home''
          [Document [1, 2, 1], Fn ''f'' [] 3 at, Drop 4 at, String ''a'' at, FnInvoke ''f'' [] at],
        None))
     = Some (Ok [], [Warning at (''function '' @ [CHR 0x27] @ ''f'' @ [CHR 0x27] @ '' redefined.'')])"
  by (intro conjI outcome_and_more_fuel outcome_of_more_fuel; code_simp)

subsection \<open>The first evaluation of a variable\<close>

text \<open>
  Claim C4: on the first evaluation of a \<^verbatim>\<open>Var\<close> node with identifier x, its body
  node is replaced in the arena by a \<^verbatim>\<open>String\<close> holding the evaluated result, the
  \<^verbatim>\<open>Var\<close> node itself is replaced by a zero-parameter \<^verbatim>\<open>Fn\<close> whose identifier is x
  and whose body is that node, the definition is registered in the function table at
  arity 0, and the empty string is returned.

  The source builds the \<^verbatim>\<open>Fn\<close> node from the mangled name. After the
  definition of the variable \<^verbatim>\<open>x\<close> with the body \<^verbatim>\<open>"A" .. "B"\<close> the node is a
  function with the identifier \<^verbatim>\<open>x0\<close>, the key of the table, and not \<^verbatim>\<open>x\<close>;
  the rest is as the claim says.
\<close>

theorem Var_becomes_Fn_named_by_the_key:
  "outcome_and (\<lambda>st. (tree st, function_table st (cat ''x'' 0))) (eval_ast example_host (3 + k) 0
       (initial_state ''/home''
          [Var ''x'' 1 at, Concat 2 3 at, String ''A'' at, String ''B'' at], None))
     = Some (Ok [],
         [Fn ''x0'' [] 1 at, String ''AB'' at, String ''A'' at, String ''B'' at], Some [0])"
  by (intro conjI outcome_and_more_fuel outcome_of_more_fuel; code_simp)
subsection \<open>The argument scope of the caller\<close>


subsection \<open>Pattern matches\<close>

text \<open>
  Claim C6: for every \<^verbatim>\<open>Map\<close> node, the test expression is evaluated exactly once;
  the patterns of the arms are then evaluated in declared order, each compared with the
  test result by string equality, stopping at the first match (patterns after the first
  match are never evaluated); the body of the matching arm is evaluated and returned; if
  no arm matches, the default is evaluated and returned when present, and evaluation
  fails with "no matches found" when the default is the sentinel.

  Let the test, evaluated once from the frame \<open>s\<close>, return \<open>test_str\<close> and leave
  \<open>s1\<close>. If the patterns of the arms up to arm \<open>j\<close>, evaluated one after the other
  from \<open>s1\<close>, leave \<open>s2\<close>, the pattern of arm \<open>j\<close> is \<open>test_str\<close> and no
  earlier one is, then the node is the evaluation of the body of arm \<open>j\<close> in \<open>s2\<close>:
  no later pattern has run. If all patterns, evaluated in order, leave \<open>s2\<close> and none
  is \<open>test_str\<close>, the node is the evaluation of the default in \<open>s2\<close>, or the
  exception when the default is the sentinel.
\<close>

theorem Map_evaluates_test_once_and_patterns_to_first_match:
  assumes "node_at s n = Some (Map test cases default_case pos)"
    and "eval_ast h fuel test s = Some (Ok test_str, s1)"
  shows "(\<forall>j pats s2.
            j < length cases
            \<and> eval_seq (eval_ast h fuel) (map fst (take (Suc j) cases)) s1 = Some (Ok pats, s2)
            \<and> (\<forall>i<j. pats ! i \<noteq> test_str) \<and> pats ! j = test_str
          \<longrightarrow> eval_ast h (Suc fuel) n s = eval_ast h fuel (snd (cases ! j)) s2)
       \<and> (\<forall>pats s2.
            eval_seq (eval_ast h fuel) (map fst cases) s1 = Some (Ok pats, s2)
            \<and> test_str \<notin> set pats
          \<longrightarrow> eval_ast h (Suc fuel) n s =
                (if default_case = NODE_EMPTY
                 then Some (Throw (Exception pos ''no matches found.''), s2)
                 else eval_ast h fuel default_case s2))"
proof -
  have visit: "eval_ast h (Suc fuel) n s =
      and_then (find_if (eval_ast h fuel) test_str cases) (\<lambda>it.
        case it of
          Some arm \<Rightarrow> eval_ast h fuel (snd arm)
        | None \<Rightarrow>
            if default_case = NODE_EMPTY then raise (Exception pos ''no matches found.'')
            else eval_ast h fuel default_case) s1"
    using assms by (simp add: visit_def visit_Map_def get_node_node_at and_then_Ok)
  show ?thesis
  proof (intro conjI allI impI)
    fix j pats s2
    assume "j < length cases
            \<and> eval_seq (eval_ast h fuel) (map fst (take (Suc j) cases)) s1 = Some (Ok pats, s2)
            \<and> (\<forall>i<j. pats ! i \<noteq> test_str) \<and> pats ! j = test_str"
    then have "find_if (eval_ast h fuel) test_str cases s1 = Some (Ok (Some (cases ! j)), s2)"
      by (intro find_if_first_match) auto
    then show "eval_ast h (Suc fuel) n s = eval_ast h fuel (snd (cases ! j)) s2"
      by (simp add: visit and_then_Ok del: eval_ast.simps)
  next
    fix pats s2
    assume "eval_seq (eval_ast h fuel) (map fst cases) s1 = Some (Ok pats, s2)
            \<and> test_str \<notin> set pats"
    then have "find_if (eval_ast h fuel) test_str cases s1 = Some (Ok None, s2)"
      by (intro find_if_no_match) auto
    then show "eval_ast h (Suc fuel) n s =
                (if default_case = NODE_EMPTY
                 then Some (Throw (Exception pos ''no matches found.''), s2)
                 else eval_ast h fuel default_case s2)"
      by (simp add: visit and_then_Ok raise_def del: eval_ast.simps)
  qed
qed

text \<open>
  \<^verbatim>\<open>match "b" { log("p1") -> "1", "b" -> "2", log("late") -> "x", * -> "3" }\<close>:
  the first pattern writes to the diagnostic stream and is the empty string, the second
  matches, and the third never writes. \<^verbatim>\<open>match "z" { "a" -> "1" }\<close> has no default.
\<close>

theorem Map_evaluates_test_once_and_patterns_to_first_match_witness:
  "node_at map_start 0 = Some (Map 1 [(2, 3), (4, 5), (6, 7)] 8 at)
   \<and> eval_ast example_host 2 1 map_start = Some (Ok ''b'', map_start)
   \<and> eval_seq (eval_ast example_host 2) [2, 4] map_start
        = Some (Ok [[], ''b''], map_after_patterns)
   \<and> eval_ast example_host 3 0 map_start = eval_ast example_host 2 5 map_after_patterns
   \<and> eval_ast example_host 2 5 map_after_patterns = Some (Ok ''2'', map_after_patterns)
   \<and> eval_ast example_host 3 0 map_no_match
        = Some (Throw (Exception at ''no matches found.''), map_no_match)"
proof -
  have n: "node_at map_start 0 = Some (Map 1 [(2, 3), (4, 5), (6, 7)] 8 at)"
    by (simp add: map_start_def run_defs)
  have t: "eval_ast example_host 2 1 map_start = Some (Ok ''b'', map_start)"
    by (simp add: map_start_def eval_nat_numeral run_defs)
  have p: "eval_seq (eval_ast example_host 2) [2, 4] map_start
             = Some (Ok [[], ''b''], map_after_patterns)"
    by (simp add: map_start_def map_after_patterns_def eval_nat_numeral run_defs)
  have b: "eval_ast example_host 2 5 map_after_patterns = Some (Ok ''2'', map_after_patterns)"
    by (simp add: map_start_def map_after_patterns_def eval_nat_numeral run_defs)
  have n': "node_at map_no_match 0 = Some (Map 1 [(2, 3)] NODE_EMPTY at)"
    by (simp add: map_no_match_def run_defs)
  have t': "eval_ast example_host 2 1 map_no_match = Some (Ok ''z'', map_no_match)"
    by (simp add: map_no_match_def eval_nat_numeral run_defs)
  have p': "eval_seq (eval_ast example_host 2) [2] map_no_match = Some (Ok [''a''], map_no_match)"
    by (simp add: map_no_match_def eval_nat_numeral run_defs)
  have "eval_ast example_host (Suc 2) 0 map_start = eval_ast example_host 2 5 map_after_patterns"
    using Map_evaluates_test_once_and_patterns_to_first_match [OF n t, THEN conjunct1,
        rule_format, of 1 "[[], ''b'']" map_after_patterns] p
    by simp
  moreover have "eval_ast example_host (Suc 2) 0 map_no_match
      = Some (Throw (Exception at ''no matches found.''), map_no_match)"
    using Map_evaluates_test_once_and_patterns_to_first_match [OF n' t', THEN conjunct2,
        rule_format, of "[''a'']" map_no_match] p'
    by simp
  ultimately show ?thesis
    using n t p b by (simp add: eval_nat_numeral)
qed
subsection \<open>Blocks\<close>

text \<open>
  Claim C7: for every \<^verbatim>\<open>Block\<close> node, every statement is evaluated in order, with
  all of its side effects, yet the value returned is exactly the value of the evaluated
  trailing expression: the accumulated strings of the statements are discarded and never
  appear in the result.

  When the statements, evaluated one after the other from the frame \<open>s\<close>, return the
  strings \<open>outs\<close> and leave the frame \<open>s'\<close>, the block is the evaluation of its
  trailing expression in \<open>s'\<close>: the same value, the same final frame, and \<open>outs\<close> is
  no part of it.
\<close>

theorem Block_returns_trailing_expression:
  assumes "node_at s n = Some (Block stmts expr pos)"
    and "eval_seq (eval_ast h fuel) stmts s = Some (Ok outs, s')"
  shows "eval_ast h (Suc fuel) n s = eval_ast h fuel expr s'"
proof -
  have "eval_stmts (eval_ast h fuel) stmts [] s = Some (Ok (concat outs), s')"
    using assms(2) by (simp add: eval_stmts_eval_seq and_then_Ok pure_def)
  then have "visit_Block (eval_ast h fuel) stmts expr s = eval_ast h fuel expr s'"
    by (simp add: visit_Block_def and_then_Ok and_then_def pure_def
        split: option.splits outcome.splits prod.splits)
  then show ?thesis
    using assms(1) by (simp add: visit_def and_then_Ok get_node_node_at)
qed

text \<open>
  The block \<^verbatim>\<open>{ log("x"); "s"; "r" }\<close>: the statements write to the diagnostic
  stream and return the strings \<open>[]\<close> and \<open>''s''\<close>; the block returns \<open>''r''\<close>.
\<close>

theorem Block_returns_trailing_expression_witness:
  "node_at block_start 0 = Some (Block [1, 3] 4 at)
   \<and> eval_seq (eval_ast example_host 2) [1, 3] block_start
        = Some (Ok [[], ''s''], block_after_statements)
   \<and> eval_ast example_host 3 0 block_start = eval_ast example_host 2 4 block_after_statements
   \<and> eval_ast example_host 2 4 block_after_statements = Some (Ok ''r'', block_after_statements)"
proof -
  have n: "node_at block_start 0 = Some (Block [1, 3] 4 at)"
    by (simp add: block_start_def run_defs)
  have s: "eval_seq (eval_ast example_host 2) [1, 3] block_start
             = Some (Ok [[], ''s''], block_after_statements)"
    by (simp add: block_start_def block_after_statements_def eval_nat_numeral run_defs)
  have r: "eval_ast example_host 2 4 block_after_statements
             = Some (Ok ''r'', block_after_statements)"
    by (simp add: block_start_def block_after_statements_def eval_nat_numeral run_defs)
  show ?thesis
    using n s r Block_returns_trailing_expression [OF n s] by (simp add: eval_nat_numeral)
qed
subsection \<open>Prefix scopes without prefix\<close>

text \<open>
  Claim C8: for every list of statements, evaluating a \<^verbatim>\<open>Pre\<close> node whose list of
  prefix expressions is empty is observationally equal (same returned string, same
  environment mutations) to evaluating a \<^verbatim>\<open>Block\<close> with the same statements and an
  empty trailing expression, accounting for the trailing-expression rule of
  \<^verbatim>\<open>Block\<close>.

  The returned strings differ as soon as a statement returns a non-empty string: the
  prefix scope returns the concatenation of the strings of its statements, the block
  returns the value of its trailing expression. In one arena, node 0 is
  \<^verbatim>\<open>prefix { let g() => "hi"; "a" }\<close> without prefix expressions and node 1 is the
  block of the same two statements with the trailing expression \<^verbatim>\<open>""\<close>.
\<close>

theorem Pre_and_Block_return_different_strings:
  "map_option fst (eval_ast example_host 2 0 pre_block_start) = Some (Ok ''a'')
   \<and> map_option fst (eval_ast example_host 2 1 pre_block_start) = Some (Ok [])"
  by code_simp

text \<open>
  Claim C8 as amended: a \<^verbatim>\<open>Pre\<close> without prefix expressions and a \<^verbatim>\<open>Block\<close>
  with the same statements and an empty string as trailing expression leave the same
  environment and throw the same exceptions; the \<^verbatim>\<open>Pre\<close> returns the concatenation
  of the strings of the statements, the \<^verbatim>\<open>Block\<close> returns the empty string.

  Both nodes are in the arena of the frame \<open>s\<close> and run with the same fuel. When the
  prefix scope returns and leaves \<open>s'\<close>, where the trailing expression is an empty
  string literal, the block returns the empty string and leaves \<open>s'\<close>; an exception
  of the one is the exception of the other, with the same frame; and the prefix scope
  returns the strings of the statements, concatenated.
\<close>

theorem Pre_without_prefix_and_Block_with_empty_expression:
  assumes "node_at s p = Some (Pre [] stmts ppos)"
    and "node_at s b = Some (Block stmts e bpos)"
  shows "(\<forall>out s'. eval_ast h (Suc (Suc fuel)) p s = Some (Ok out, s')
              \<and> node_at s' e = Some (String [] epos)
            \<longrightarrow> eval_ast h (Suc (Suc fuel)) b s = Some (Ok [], s'))
       \<and> (\<forall>x s'. eval_ast h (Suc (Suc fuel)) p s = Some (Throw x, s')
            \<longrightarrow> eval_ast h (Suc (Suc fuel)) b s = Some (Throw x, s'))
       \<and> (eval_ast h (Suc (Suc fuel)) p s = None \<longrightarrow> eval_ast h (Suc (Suc fuel)) b s = None)
       \<and> (\<forall>outs s'. eval_seq (eval_ast h (Suc fuel)) stmts s = Some (Ok outs, s')
            \<longrightarrow> eval_ast h (Suc (Suc fuel)) p s = Some (Ok (concat outs), s'))"
proof -
  let ?ev = "eval_ast h (Suc fuel)"
  have pre: "eval_ast h (Suc (Suc fuel)) p s = eval_stmts ?ev stmts [] s"
    using assms(1)
    by (simp add: visit_def get_node_node_at and_then_Ok visit_Pre_def pre_stmts_no_prefix
        del: eval_ast.simps add: eval_ast.simps(2) [of h "Suc fuel"])
  have block: "eval_ast h (Suc (Suc fuel)) b s
      = and_then (eval_stmts ?ev stmts []) (\<lambda>str. and_then (?ev e) (\<lambda>str'. pure str')) s"
    using assms(2)
    by (simp add: visit_def get_node_node_at and_then_Ok visit_Block_def
        del: eval_ast.simps add: eval_ast.simps(2) [of h "Suc fuel"])
  show ?thesis
  proof (intro conjI allI impI)
    fix out s'
    assume "eval_ast h (Suc (Suc fuel)) p s = Some (Ok out, s') \<and> node_at s' e = Some (String [] epos)"
    then have "eval_stmts ?ev stmts [] s = Some (Ok out, s')" and "?ev e s' = Some (Ok [], s')"
      using pre eval_String by auto
    then show "eval_ast h (Suc (Suc fuel)) b s = Some (Ok [], s')"
      unfolding block by (simp add: and_then_Ok pure_def del: eval_ast.simps)
  next
    fix x s'
    assume "eval_ast h (Suc (Suc fuel)) p s = Some (Throw x, s')"
    then have "eval_stmts ?ev stmts [] s = Some (Throw x, s')"
      using pre by simp
    then show "eval_ast h (Suc (Suc fuel)) b s = Some (Throw x, s')"
      unfolding block by (simp add: and_then_Throw)
  next
    assume "eval_ast h (Suc (Suc fuel)) p s = None"
    then have "eval_stmts ?ev stmts [] s = None"
      using pre by simp
    then show "eval_ast h (Suc (Suc fuel)) b s = None"
      unfolding block by (simp add: and_then_None)
  next
    fix outs s'
    assume "eval_seq ?ev stmts s = Some (Ok outs, s')"
    then show "eval_ast h (Suc (Suc fuel)) p s = Some (Ok (concat outs), s')"
      unfolding pre by (simp add: eval_stmts_eval_seq and_then_Ok pure_def del: eval_ast.simps)
  qed
qed

theorem Pre_without_prefix_and_Block_with_empty_expression_witness:
  "node_at pre_block_start 0 = Some (Pre [] [2, 4] at)
   \<and> node_at pre_block_start 1 = Some (Block [2, 4] 5 at)
   \<and> eval_ast example_host 2 0 pre_block_start = Some (Ok ''a'', pre_block_end)
   \<and> node_at pre_block_end 5 = Some (String [] at)
   \<and> eval_ast example_host 2 1 pre_block_start = Some (Ok [], pre_block_end)"
proof -
  have p: "node_at pre_block_start 0 = Some (Pre [] [2, 4] at)"
    by (simp add: pre_block_start_def run_defs)
  have b: "node_at pre_block_start 1 = Some (Block [2, 4] 5 at)"
    by (simp add: pre_block_start_def run_defs)
  have r: "eval_ast example_host (Suc (Suc 0)) 0 pre_block_start = Some (Ok ''a'', pre_block_end)"
    by (simp add: pre_block_start_def pre_block_end_def run_defs to_string.simps digit_char_def)
  have e: "node_at pre_block_end 5 = Some (String [] at)"
    by (simp add: pre_block_start_def pre_block_end_def run_defs)
  have "eval_ast example_host (Suc (Suc 0)) 1 pre_block_start = Some (Ok [], pre_block_end)"
    using Pre_without_prefix_and_Block_with_empty_expression [OF p b, of example_host 0 at,
        THEN conjunct1, rule_format, of "''a''" pre_block_end] r e
    by blast
  with p b r e show ?thesis
    by (simp add: numeral_2_eq_2)
qed
subsection \<open>\<^verbatim>\<open>find\<close> and \<^verbatim>\<open>slice\<close>\<close>

text \<open>
  Claim C9: for all strings s and p, \<^verbatim>\<open>find(s, p)\<close> returns the empty string if and
  only if p is not a substring of s; otherwise it returns the decimal index i of the first
  occurrence, and that i satisfies \<^verbatim>\<open>slice(s, i, i + |p| - 1) == p\<close>.

  The empty pattern is a substring of every string and is found at index 0; the end of
  the slice is then \<open>-1\<close>, which counts from the end of the string: the slice of
  \<^verbatim>\<open>abc\<close> is all of \<^verbatim>\<open>abc\<close> and not the empty pattern, and the slice of the
  empty string fails.
\<close>

theorem slice_after_find_of_empty_pattern:
  "find_index ''abc'' [] = to_string 0
   \<and> slice at ''abc'' (to_string 0) (decimal (int 0 + int (length ([] :: string)) - 1)) = Inr ''abc''
   \<and> slice at [] (to_string 0) (decimal (int 0 + int (length ([] :: string)) - 1))
       = Inl (Exception at ''end of slice cannot be before the start.'')"
  by code_simp

text \<open>
  Claim C9 as amended: for all strings s and p, \<^verbatim>\<open>find(s, p)\<close> returns the empty
  string if and only if p is not a substring of s; otherwise it returns the decimal index
  i of the first occurrence; and when p is not empty and the length of s is an
  \<^verbatim>\<open>int\<close>, \<^verbatim>\<open>slice(s, i, i + |p| - 1)\<close> returns p.

  \<open>find_index\<close> and \<open>slice\<close> are the bodies of the two intrinsics on evaluated
  arguments; an occurrence of p at index i is \<open>prefix p (drop i s)\<close>.
\<close>

theorem find_returns_first_occurrence_and_slice_returns_pattern:
  "(find_index s p = [] \<longleftrightarrow> \<not> sublist p s)
   \<and> (sublist p s \<longrightarrow> (\<exists>i. find_index s p = to_string i))
   \<and> (\<forall>i. find_index s p = to_string i \<longrightarrow>
          i \<le> length s \<and> prefix p (drop i s) \<and> (\<forall>j<i. \<not> prefix p (drop j s))
          \<and> (p \<noteq> [] \<and> int (length s) \<le> INT_MAX \<longrightarrow>
               slice pos s (to_string i) (decimal (int i + int (length p) - 1)) = Inr p))"
proof (intro conjI allI impI)
  show "find_index s p = [] \<longleftrightarrow> \<not> sublist p s"
    by (simp add: find_index_empty_iff str_find_None_iff)
next
  assume "sublist p s"
  then have "str_find s p \<noteq> None" by (simp add: str_find_None_iff)
  then show "\<exists>i. find_index s p = to_string i"
    by (auto simp: find_index_decimal)
next
  fix i
  assume "find_index s p = to_string i"
  then have found: "str_find s p = Some i" by (simp add: find_index_decimal)
  from str_find_Some [OF found]
  show "i \<le> length s" and "prefix p (drop i s)" by simp_all
  {
    fix j assume "j < i"
    with str_find_Some [OF found] show "\<not> prefix p (drop j s)" by simp
  }
  assume "p \<noteq> [] \<and> int (length s) \<le> INT_MAX"
  with str_find_Some [OF found]
  show "slice pos s (to_string i) (decimal (int i + int (length p) - 1)) = Inr p"
    by (intro slice_at_occurrence) simp_all
qed

theorem find_returns_first_occurrence_and_slice_returns_pattern_witness:
  "find_index ''abcabc'' ''ca'' = to_string 2
   \<and> ''ca'' \<noteq> [] \<and> int (length ''abcabc'') \<le> INT_MAX
   \<and> sublist ''ca'' ''abcabc''
   \<and> slice at ''abcabc'' (to_string 2) (decimal (int 2 + int (length ''ca'') - 1)) = Inr ''ca''"
proof -
  have f: "find_index ''abcabc'' ''ca'' = to_string 2"
    by code_simp
  have h: "''ca'' \<noteq> [] \<and> int (length ''abcabc'') \<le> INT_MAX"
    by (simp add: INT_MAX_def)
  have "find_index ''abcabc'' ''ca'' \<noteq> []"
    by code_simp
  then have sub: "sublist ''ca'' ''abcabc''"
    using find_returns_first_occurrence_and_slice_returns_pattern [of "''abcabc''" "''ca''" at]
    by blast
  have "slice at ''abcabc'' (to_string 2) (decimal (int 2 + int (length ''ca'') - 1)) = Inr ''ca''"
    using find_returns_first_occurrence_and_slice_returns_pattern [of "''abcabc''" "''ca''" at]
      f h by blast
  with f h sub show ?thesis by blast
qed
subsection \<open>The output of a subprocess\<close>

text \<open>
  Claim C10: for every command whose subprocess exits with status zero, \<^verbatim>\<open>run\<close> and
  \<^verbatim>\<open>pipe\<close> are well defined on all captured outputs, the empty string included: the
  trim of the trailing newline never reads a byte of an empty output, and an empty output
  is returned unchanged as the empty string.

  Both intrinsics call \<^verbatim>\<open>back()\<close> on the output before anything looks at its size.
  \<^verbatim>\<open>run("true")\<close> and \<^verbatim>\<open>pipe("cat", "")\<close> exit with status zero and print
  nothing: the read is outside the string. An output that ends in a newline loses it.
\<close>

theorem run_and_pipe_read_back_of_empty_output:
  "outcome_of (eval_ast example_host (2 + k) 0
       (initial_state ''/home'' [Intrinsic TOKEN_RUN ''run'' [1] at, String ''true'' at], None))
     = Some (Throw (Crash ''back() of an empty string''))
   \<and> outcome_of (eval_ast example_host (2 + k) 0
       (initial_state ''/home''
          [Intrinsic TOKEN_PIPE ''pipe'' [1, 2] at, String ''cat'' at, String [] at], None))
     = Some (Throw (Crash ''back() of an empty string''))
   \<and> outcome_of (eval_ast example_host (2 + k) 0
       (initial_state ''/home'' [Intrinsic TOKEN_RUN ''run'' [1] at, String ''echo hi'' at], None))
     = Some (Ok ''hi'')"
  by (intro conjI outcome_and_more_fuel outcome_of_more_fuel; code_simp)

end
